theory Spec2Isabelle
  imports Main
begin

section \<open>JavaScript strings and regular expressions\<close>

text \<open>
  A JavaScript string is modelled as a \<^typ>\<open>string\<close>: a list of code units. The model
  covers code units below 256, so the character classes below list the members of each
  class in that range (U+2028, U+2029 and the other wide white-space characters are
  outside it).
\<close>

definition is_line_terminator :: "char \<Rightarrow> bool" where
  "is_line_terminator c \<longleftrightarrow> c = CHR 0x0A \<or> c = CHR 0x0D"

definition is_space :: "char \<Rightarrow> bool" where
  "is_space c \<longleftrightarrow> c = CHR 0x09 \<or> c = CHR 0x0A \<or> c = CHR 0x0B \<or> c = CHR 0x0C
     \<or> c = CHR 0x0D \<or> c = CHR 0x20 \<or> c = CHR 0xA0"

definition is_digit :: "char \<Rightarrow> bool" where
  "is_digit c \<longleftrightarrow> c \<in> set ''0123456789''"

definition is_word :: "char \<Rightarrow> bool" where
  "is_word c \<longleftrightarrow> c \<in> set ''abcdefghijklmnopqrstuvwxyzABCDEFGHIJKLMNOPQRSTUVWXYZ0123456789_''"

text \<open>Canonicalisation under the \<open>i\<close> flag: upper case, on the ASCII letters.\<close>

definition to_upper :: "char \<Rightarrow> char" where
  "to_upper c = (case map_of (zip ''abcdefghijklmnopqrstuvwxyz'' ''ABCDEFGHIJKLMNOPQRSTUVWXYZ'') c of
                   Some u \<Rightarrow> u | None \<Rightarrow> c)"

definition char_eq :: "bool \<Rightarrow> char \<Rightarrow> char \<Rightarrow> bool" where
  "char_eq ci c d \<longleftrightarrow> (if ci then to_upper c = to_upper d else c = d)"

text \<open>
  Character classes: \<open>CAny\<close> is \<open>[\s\S]\<close>, \<open>CDot\<close> is \<open>.\<close>, \<open>CSpace\<close> is \<open>\s\<close>, \<open>CWord\<close> is
  \<open>\w\<close>, \<open>CDigit\<close> is \<open>\d\<close>, \<open>CIn\<close> a bracket list, \<open>CNotIn\<close> a negated one.
\<close>

datatype cc = CAny | CDot | CSpace | CWord | CDigit | CIn string | CNotIn string
  | CUnion cc cc

fun cc_match :: "cc \<Rightarrow> char \<Rightarrow> bool" where
  "cc_match CAny c = True"
| "cc_match CDot c = (\<not> is_line_terminator c)"
| "cc_match CSpace c = is_space c"
| "cc_match CWord c = is_word c"
| "cc_match CDigit c = is_digit c"
| "cc_match (CIn s) c = (c \<in> set s)"
| "cc_match (CNotIn s) c = (c \<notin> set s)"
| "cc_match (CUnion a b) c = (cc_match a c \<or> cc_match b c)"

text \<open>
  Every regular expression of the source is a sequence of these items: a literal
  character, one character of a class, a quantified class (\<open>Rep cls n greedy\<close>: at least
  \<open>n\<close> characters, greedy or lazy), the brackets of a capturing group, the anchors
  \<open>^\<close> and \<open>$\<close>, and the negative look-behind \<open>(?<!c)\<close>.
\<close>

datatype item = Lit char | One cc | Rep cc nat bool | GOpen | GClose | Bol | Eol
  | NotBehind char

text \<open>
  The state of one match attempt: the text before the position (reversed), the text from
  the position on, the text of the group that is open (reversed), the groups closed so
  far, and the number of characters matched.
\<close>

datatype mstate = MState (ms_pre: string) (ms_rest: string) (ms_open: string)
  (ms_caps: "string list") (ms_len: nat)

fun eat :: "nat \<Rightarrow> mstate \<Rightarrow> mstate" where
  "eat 0 st = st"
| "eat (Suc n) (MState pre [] opn caps len) = MState pre [] opn caps len"
| "eat (Suc n) (MState pre (c # cs) opn caps len) =
     eat n (MState (c # pre) cs (c # opn) caps (Suc len))"

fun first_some :: "('a \<Rightarrow> 'b option) \<Rightarrow> 'a list \<Rightarrow> 'b option" where
  "first_some f [] = None"
| "first_some f (x # xs) = (case f x of Some y \<Rightarrow> Some y | None \<Rightarrow> first_some f xs)"

text \<open>
  One item, with the rest of the expression as the continuation \<open>k\<close>. A quantified class
  tries the counts in the order of a backtracking matcher: a greedy one from the longest
  run down, a lazy one from the shortest up. The flags are \<open>ci\<close> (\<open>i\<close>) and \<open>ml\<close> (\<open>m\<close>).
\<close>

fun step :: "bool \<Rightarrow> bool \<Rightarrow> item \<Rightarrow> (mstate \<Rightarrow> mstate option) \<Rightarrow> mstate \<Rightarrow> mstate option" where
  "step ci ml (Lit c) k st =
     (case ms_rest st of [] \<Rightarrow> None
      | d # _ \<Rightarrow> if char_eq ci c d then k (eat 1 st) else None)"
| "step ci ml (One cls) k st =
     (case ms_rest st of [] \<Rightarrow> None
      | d # _ \<Rightarrow> if cc_match cls d then k (eat 1 st) else None)"
| "step ci ml (Rep cls mn greedy) k st =
     (let run = length (takeWhile (cc_match cls) (ms_rest st));
          ns = [mn ..< Suc run]
      in first_some (\<lambda>n. k (eat n st)) (if greedy then rev ns else ns))"
| "step ci ml GOpen k st =
     k (MState (ms_pre st) (ms_rest st) [] (ms_caps st) (ms_len st))"
| "step ci ml GClose k st =
     k (MState (ms_pre st) (ms_rest st) [] (ms_caps st @ [rev (ms_open st)]) (ms_len st))"
| "step ci ml Bol k st =
     (case ms_pre st of [] \<Rightarrow> k st
      | p # _ \<Rightarrow> if ml \<and> is_line_terminator p then k st else None)"
| "step ci ml Eol k st =
     (case ms_rest st of [] \<Rightarrow> k st
      | d # _ \<Rightarrow> if ml \<and> is_line_terminator d then k st else None)"
| "step ci ml (NotBehind c) k st =
     (case ms_pre st of [] \<Rightarrow> k st
      | p # _ \<Rightarrow> if p = c then None else k st)"

primrec rmatch :: "bool \<Rightarrow> bool \<Rightarrow> item list \<Rightarrow> mstate \<Rightarrow> mstate option" where
  "rmatch ci ml [] st = Some st"
| "rmatch ci ml (it # its) st = step ci ml it (rmatch ci ml its) st"

text \<open>A regular expression with its flags \<open>i\<close> and \<open>m\<close>.\<close>

datatype regex = Regex (re_ci: bool) (re_ml: bool) (re_items: "item list")

definition re_at :: "regex \<Rightarrow> string \<Rightarrow> string \<Rightarrow> mstate option" where
  "re_at r pre s = rmatch (re_ci r) (re_ml r) (re_items r) (MState pre s [] [] 0)"

text \<open>
  \<open>String.prototype.match\<close> with a regular expression that has no \<open>g\<close> flag: the first
  position, from the left, at which the expression matches; the result is the list of
  the captures.
\<close>

fun re_exec_from :: "regex \<Rightarrow> string \<Rightarrow> string \<Rightarrow> string list option" where
  "re_exec_from r pre [] = map_option ms_caps (re_at r pre [])"
| "re_exec_from r pre (c # cs) =
     (case re_at r pre (c # cs) of
        Some m \<Rightarrow> Some (ms_caps m)
      | None \<Rightarrow> re_exec_from r (c # pre) cs)"

definition re_exec :: "regex \<Rightarrow> string \<Rightarrow> string list option" where
  "re_exec r s = re_exec_from r [] s"

definition re_test :: "regex \<Rightarrow> string \<Rightarrow> bool" where
  "re_test r s \<longleftrightarrow> re_exec r s \<noteq> None"

text \<open>
  A scan with the \<open>g\<close> flag cuts the text into the characters that are kept and the
  matches, each with its captures, the text before it and the text after it. After an
  empty match the scan moves on by one character, which is kept.
\<close>

datatype seg = Keep char | Hit string "string list" string string

definition hit_of :: "string \<Rightarrow> string \<Rightarrow> mstate \<Rightarrow> seg" where
  "hit_of pre s m = Hit (take (ms_len m) s) (ms_caps m) (rev pre) (ms_rest m)"

fun re_scan :: "regex \<Rightarrow> string \<Rightarrow> string \<Rightarrow> nat \<Rightarrow> seg list" where
  "re_scan r pre [] skip =
     (if skip = 0 then (case re_at r pre [] of Some m \<Rightarrow> [hit_of pre [] m] | None \<Rightarrow> [])
      else [])"
| "re_scan r pre (c # cs) skip =
     (if 0 < skip then re_scan r (c # pre) cs (skip - 1)
      else case re_at r pre (c # cs) of
             None \<Rightarrow> Keep c # re_scan r (c # pre) cs 0
           | Some m \<Rightarrow>
               if ms_len m = 0 then hit_of pre (c # cs) m # Keep c # re_scan r (c # pre) cs 0
               else hit_of pre (c # cs) m # re_scan r (c # pre) cs (ms_len m - 1))"

text \<open>
  The replacement patterns of \<open>String.prototype.replace\<close> (ECMAScript's GetSubstitution):
  \<open>$$\<close>, \<open>$&\<close>, the text before and after the match, and \<open>$n\<close>, \<open>$nn\<close> for the captures; a
  reference to a group that does not exist stays as it is written.
\<close>

definition digit_val :: "char \<Rightarrow> nat" where
  "digit_val c = of_char c - 48"

fun get_substitution :: "string \<Rightarrow> string \<Rightarrow> string \<Rightarrow> string list \<Rightarrow> string \<Rightarrow> string" where
  "get_substitution m pre post caps [] = []"
| "get_substitution m pre post caps [c] = [c]"
| "get_substitution m pre post caps (c # d # t) =
     (if c \<noteq> CHR ''$'' then c # get_substitution m pre post caps (d # t)
      else if d = CHR ''$'' then CHR ''$'' # get_substitution m pre post caps t
      else if d = CHR ''&'' then m @ get_substitution m pre post caps t
      else if d = CHR 0x60 then pre @ get_substitution m pre post caps t
      else if d = CHR 0x27 then post @ get_substitution m pre post caps t
      else if is_digit d then
        (case t of
           e # t' \<Rightarrow>
             if is_digit e \<and> 10 * digit_val d + digit_val e \<le> length caps then
               (if 1 \<le> 10 * digit_val d + digit_val e
                then caps ! (10 * digit_val d + digit_val e - 1) @ get_substitution m pre post caps t'
                else c # d # e # get_substitution m pre post caps t')
             else if 1 \<le> digit_val d \<and> digit_val d \<le> length caps
               then caps ! (digit_val d - 1) @ get_substitution m pre post caps t
               else c # d # get_substitution m pre post caps t
         | [] \<Rightarrow>
             if 1 \<le> digit_val d \<and> digit_val d \<le> length caps
               then caps ! (digit_val d - 1) @ get_substitution m pre post caps t
               else c # d # get_substitution m pre post caps t)
      else c # get_substitution m pre post caps (d # t))"

text \<open>\<open>s.replace(/r/g, template)\<close> and \<open>s.replace(/r/g, callback)\<close>.\<close>

fun seg_text :: "(string \<Rightarrow> string list \<Rightarrow> string \<Rightarrow> string \<Rightarrow> string) \<Rightarrow> seg \<Rightarrow> string" where
  "seg_text f (Keep c) = [c]"
| "seg_text f (Hit m caps pre post) = f m caps pre post"

definition replace_all_fn :: "regex \<Rightarrow> (string \<Rightarrow> string list \<Rightarrow> string) \<Rightarrow> string \<Rightarrow> string" where
  "replace_all_fn r f s = concat (map (seg_text (\<lambda>m caps pre post. f m caps)) (re_scan r [] s 0))"

definition replace_all :: "regex \<Rightarrow> string \<Rightarrow> string \<Rightarrow> string" where
  "replace_all r template s =
     concat (map (seg_text (\<lambda>m caps pre post. get_substitution m pre post caps template))
                 (re_scan r [] s 0))"

text \<open>\<open>s.replace(pattern, replacement)\<close> with two strings: the first occurrence only.\<close>

fun starts_with :: "string \<Rightarrow> string \<Rightarrow> bool" where
  "starts_with s [] = True"
| "starts_with [] (p # ps) = False"
| "starts_with (c # cs) (p # ps) = (c = p \<and> starts_with cs ps)"

fun find_sub :: "string \<Rightarrow> string \<Rightarrow> string \<Rightarrow> (string \<times> string) option" where
  "find_sub pat pre [] = (if pat = [] then Some (rev pre, []) else None)"
| "find_sub pat pre (c # cs) =
     (if starts_with (c # cs) pat then Some (rev pre, drop (length pat) (c # cs))
      else find_sub pat (c # pre) cs)"

definition str_replace :: "string \<Rightarrow> string \<Rightarrow> string \<Rightarrow> string" where
  "str_replace s pat replacement =
     (case find_sub pat [] s of
        None \<Rightarrow> s
      | Some (pre, post) \<Rightarrow> pre @ get_substitution pat pre post [] replacement @ post)"

text \<open>\<open>s.split(c)\<close> with a one-character separator, \<open>xs.join(sep)\<close> and \<open>s.trim()\<close>.\<close>

fun split_on :: "char \<Rightarrow> string \<Rightarrow> string list" where
  "split_on sep [] = [[]]"
| "split_on sep (c # cs) =
     (if c = sep then [] # split_on sep cs
      else (case split_on sep cs of
              [] \<Rightarrow> [[c]]
            | w # ws \<Rightarrow> (c # w) # ws))"

fun join :: "string \<Rightarrow> string list \<Rightarrow> string" where
  "join sep [] = []"
| "join sep [x] = x"
| "join sep (x # y # ys) = x @ sep @ join sep (y # ys)"

definition trim :: "string \<Rightarrow> string" where
  "trim s = rev (dropWhile is_space (rev (dropWhile is_space s)))"

section \<open>converter.ts: the list builder\<close>

datatype list_type = UL | OL

record frame =
  ftype :: list_type
  indent :: nat

fun tag_name :: "list_type \<Rightarrow> string" where
  "tag_name UL = ''ul''"
| "tag_name OL = ''ol''"

definition open_tag :: "list_type \<Rightarrow> string" where
  "open_tag t = ''<'' @ tag_name t @ ''>''"

definition close_tag :: "list_type \<Rightarrow> string" where
  "close_tag t = ''</'' @ tag_name t @ ''>''"

text \<open>
  The two patterns of \<open>convertLists\<close>: \<open>/^(\s*)[-*+]\s+(.+)$/\<close> and
  \<open>/^(\s*)(\d+)\.\s+(.+)$/\<close>.
\<close>

definition unordered_re :: regex where
  "unordered_re = Regex False False
     [Bol, GOpen, Rep CSpace 0 True, GClose, One (CIn ''-*+''), Rep CSpace 1 True,
      GOpen, Rep CDot 1 True, GClose, Eol]"

definition ordered_re :: regex where
  "ordered_re = Regex False False
     [Bol, GOpen, Rep CSpace 0 True, GClose, GOpen, Rep CDigit 1 True, GClose, Lit CHR ''.'',
      Rep CSpace 1 True, GOpen, Rep CDot 1 True, GClose, Eol]"

text \<open>
  The open-list stack \<open>listStack\<close> is an array that grows and shrinks at its end; here the
  head of the list is the top of the stack, so the list read from its last element to its
  first is the array from bottom to top. \<open>result\<close> is the array of output lines.
\<close>

type_synonym list_state = "string list \<times> frame list"

fun close_all :: "list_state \<Rightarrow> list_state" where
  "close_all (res, []) = (res, [])"
| "close_all (res, f # st) = close_all (res @ [close_tag (ftype f)], st)"

fun close_deeper :: "nat \<Rightarrow> list_state \<Rightarrow> list_state" where
  "close_deeper ind (res, []) = (res, [])"
| "close_deeper ind (res, f # st) =
     (if ind < indent f then close_deeper ind (res @ [close_tag (ftype f)], st)
      else (res, f # st))"

definition open_if_needed :: "list_type \<Rightarrow> nat \<Rightarrow> list_state \<Rightarrow> list_state" where
  "open_if_needed t ind s =
     (case s of
        (res, []) \<Rightarrow> (res @ [open_tag t], [\<lparr>ftype = t, indent = ind\<rparr>])
      | (res, f # st) \<Rightarrow>
          if indent f < ind then (res @ [open_tag t], \<lparr>ftype = t, indent = ind\<rparr> # f # st)
          else if ftype f \<noteq> t then
            (res @ [close_tag (ftype f), open_tag t], \<lparr>ftype = t, indent = ind\<rparr> # st)
          else (res, f # st))"

definition handleListItem :: "list_state \<Rightarrow> list_type \<Rightarrow> nat \<Rightarrow> string \<Rightarrow> list_state" where
  "handleListItem s t ind txt =
     (case open_if_needed t ind (close_deeper ind s) of
        (res, st) \<Rightarrow> (res @ [''<li>'' @ txt @ ''</li>''], st))"

text \<open>What a line is: a list item with its kind, indentation and text, or no list item.\<close>

definition list_item :: "string \<Rightarrow> (list_type \<times> nat \<times> string) option" where
  "list_item line =
     (case re_exec unordered_re line of
        Some caps \<Rightarrow> Some (UL, length (caps ! 0), caps ! 1)
      | None \<Rightarrow>
          (case re_exec ordered_re line of
             Some caps \<Rightarrow> Some (OL, length (caps ! 0), caps ! 2)
           | None \<Rightarrow> None))"

definition list_line :: "list_state \<Rightarrow> string \<Rightarrow> list_state" where
  "list_line s line =
     (case list_item line of
        Some (t, ind, txt) \<Rightarrow> handleListItem s t ind txt
      | None \<Rightarrow> (case close_all s of (res, st) \<Rightarrow> (res @ [line], st)))"

definition list_loop :: "string list \<Rightarrow> list_state" where
  "list_loop ls = foldl list_line ([], []) ls"

definition convertLists :: "string \<Rightarrow> string" where
  "convertLists content =
     join [CHR 0x0A] (fst (close_all (list_loop (split_on (CHR 0x0A) content))))"

subsection \<open>The invariant of the open-list stack\<close>

text \<open>
  The head of the list is the top of the stack: the indentation grows from bottom to top
  when each frame is deeper than every frame after it in the list.
\<close>

definition increasing_bottom_up :: "frame list \<Rightarrow> bool" where
  "increasing_bottom_up st \<longleftrightarrow> sorted_wrt (\<lambda>upper lower. indent lower < indent upper) st"

fun no_adjacent_same :: "frame list \<Rightarrow> bool" where
  "no_adjacent_same (a # b # st) =
     (\<not> (ftype a = ftype b \<and> indent a = indent b) \<and> no_adjacent_same (b # st))"
| "no_adjacent_same st = True"

lemma close_all_empty: "snd (close_all s) = []"
  by (induction s rule: close_all.induct) simp_all

lemma close_deeper_stack:
  "increasing_bottom_up st \<Longrightarrow>
   increasing_bottom_up (snd (close_deeper ind (res, st))) \<and>
   (\<forall>f \<in> set (snd (close_deeper ind (res, st))). indent f \<le> ind)"
proof (induction st arbitrary: res)
  case Nil
  then show ?case by simp
next
  case (Cons f st)
  show ?case
  proof (cases "ind < indent f")
    case True
    from Cons.prems have "increasing_bottom_up st"
      by (simp add: increasing_bottom_up_def)
    from Cons.IH [OF this] True show ?thesis by simp
  next
    case False
    with Cons.prems show ?thesis
      by (auto simp: increasing_bottom_up_def)
  qed
qed

lemma open_if_needed_stack:
  assumes "increasing_bottom_up (snd s)" and "\<forall>f \<in> set (snd s). indent f \<le> ind"
  shows "increasing_bottom_up (snd (open_if_needed t ind s))"
proof (cases s)
  case (Pair res st)
  show ?thesis
  proof (cases st)
    case Nil
    with Pair show ?thesis by (simp add: open_if_needed_def increasing_bottom_up_def)
  next
    case (Cons f st')
    with Pair assms show ?thesis
      by (auto simp: open_if_needed_def increasing_bottom_up_def)
  qed
qed

lemma handleListItem_stack:
  assumes "increasing_bottom_up (snd s)"
  shows "increasing_bottom_up (snd (handleListItem s t ind txt))"
proof -
  obtain res st where s: "s = (res, st)" by (cases s)
  from assms s close_deeper_stack [of st ind res]
  have "increasing_bottom_up (snd (open_if_needed t ind (close_deeper ind s)))"
    by (intro open_if_needed_stack) simp_all
  then show ?thesis
    by (cases "open_if_needed t ind (close_deeper ind s)") (simp add: handleListItem_def)
qed

lemma list_line_stack:
  assumes "increasing_bottom_up (snd s)"
  shows "increasing_bottom_up (snd (list_line s line))"
proof (cases "list_item line")
  case None
  have "snd (close_all s) = []" by (rule close_all_empty)
  with None show ?thesis
    by (cases "close_all s") (simp add: list_line_def increasing_bottom_up_def)
next
  case (Some a)
  with handleListItem_stack [OF assms] show ?thesis
    by (simp add: list_line_def split: prod.splits)
qed

lemma list_line_no_item:
  "list_item line = None \<Longrightarrow> snd (list_line s line) = []"
  using close_all_empty [of s] by (cases "close_all s") (simp add: list_line_def)

lemma foldl_list_line_stack:
  "increasing_bottom_up (snd s) \<Longrightarrow> increasing_bottom_up (snd (foldl list_line s ls))"
  by (induction ls arbitrary: s) (simp_all add: list_line_stack)

lemma increasing_no_adjacent_same:
  "increasing_bottom_up st \<Longrightarrow> no_adjacent_same st"
  by (induction st rule: no_adjacent_same.induct) (auto simp: increasing_bottom_up_def)

text \<open>
  Claim C5. After every line the list builder has processed (every prefix of the input
  lines), the indentation values of the open-list stack are strictly increasing from
  bottom to top, no two adjacent frames share both kind and indentation, and the stack is
  empty when the line just processed is not a list item.
\<close>

theorem list_stack_invariant:
  "increasing_bottom_up (snd (list_loop (take n ls))) \<and>
   no_adjacent_same (snd (list_loop (take n ls))) \<and>
   (0 < n \<and> n \<le> length ls \<and> list_item (ls ! (n - 1)) = None \<longrightarrow>
      snd (list_loop (take n ls)) = [])"
proof -
  have inc: "increasing_bottom_up (snd (list_loop (take n ls)))"
    unfolding list_loop_def
    by (rule foldl_list_line_stack) (simp add: increasing_bottom_up_def)
  have "snd (list_loop (take n ls)) = []"
    if "0 < n" "n \<le> length ls" "list_item (ls ! (n - 1)) = None"
  proof -
    from that have "take n ls = take (n - 1) ls @ [ls ! (n - 1)]"
      by (metis Suc_pred' less_eq_Suc_le take_Suc_conv_app_nth)
    with that(3) show ?thesis
      by (simp add: list_loop_def list_line_no_item)
  qed
  with inc increasing_no_adjacent_same [OF inc] show ?thesis by blast
qed

theorem list_stack_invariant_witness:
  "increasing_bottom_up (snd (list_loop (take 3 [''- a'', ''  1. b'', ''c'']))) \<and>
   no_adjacent_same (snd (list_loop (take 3 [''- a'', ''  1. b'', ''c'']))) \<and>
   (0 < (3::nat)) \<and> 3 \<le> length [''- a'', ''  1. b'', ''c''] \<and>
   list_item ([''- a'', ''  1. b'', ''c''] ! (3 - 1)) = None \<and>
   snd (list_loop (take 3 [''- a'', ''  1. b'', ''c''])) = [] \<and>
   snd (list_loop (take 2 [''- a'', ''  1. b'', ''c''])) =
     [\<lparr>ftype = OL, indent = 2\<rparr>, \<lparr>ftype = UL, indent = 0\<rparr>]"
proof -
  have item: "list_item ([''- a'', ''  1. b'', ''c''] ! (3 - 1)) = None"
    by code_simp
  have two: "snd (list_loop (take 2 [''- a'', ''  1. b'', ''c''])) =
     [\<lparr>ftype = OL, indent = 2\<rparr>, \<lparr>ftype = UL, indent = 0\<rparr>]"
    by code_simp
  from item two list_stack_invariant [of 3 "[''- a'', ''  1. b'', ''c'']"]
  show ?thesis by (simp add: increasing_bottom_up_def)
qed

section \<open>converter.ts: the table recognizer\<close>

text \<open>The patterns of \<open>convertTables\<close>: \<open>/^\|.*\|$/\<close> and \<open>/^\|[\s-:|]+\|$/\<close>.\<close>

definition row_re :: regex where
  "row_re = Regex False False [Bol, Lit CHR ''|'', Rep CDot 0 True, Lit CHR ''|'', Eol]"

definition sep_re :: regex where
  "sep_re = Regex False False
     [Bol, Lit CHR ''|'', Rep (CUnion CSpace (CIn ''-:|'')) 1 True, Lit CHR ''|'', Eol]"

text \<open>\<open>line.split('|').slice(1, -1).map(cell => cell.trim())\<close>\<close>

definition cells :: "string \<Rightarrow> string list" where
  "cells line = map trim (butlast (drop 1 (split_on CHR ''|'' line)))"

definition th :: "string \<Rightarrow> string" where
  "th cell = ''<th>'' @ cell @ ''</th>''"

definition td :: "string \<Rightarrow> string" where
  "td cell = ''<td>'' @ cell @ ''</td>''"

text \<open>
  The variables of the loop: the output lines, \<open>inTable\<close> and \<open>headerRow\<close> (which the
  source assigns and never reads).
\<close>

record table_state =
  result :: "string list"
  inTable :: bool
  headerRow :: bool

definition table_init :: table_state where
  "table_init = \<lparr>result = [], inTable = False, headerRow = True\<rparr>"

text \<open>The branch of a row that is followed by a separator line.\<close>

definition header_lines :: "string \<Rightarrow> string list" where
  "header_lines line = [''<tr>''] @ map th (cells line) @ [''</tr>'', ''</thead>'', ''<tbody>'']"

definition table_header :: "table_state \<Rightarrow> string \<Rightarrow> table_state" where
  "table_header s line =
     \<lparr>result = result s @ (if inTable s then [] else [''<table>'', ''<thead>'']) @ header_lines line,
      inTable = True, headerRow = False\<rparr>"

definition table_row :: "table_state \<Rightarrow> string \<Rightarrow> table_state" where
  "table_row s line = s\<lparr>result := result s @ [''<tr>''] @ map td (cells line) @ [''</tr>'']\<rparr>"

definition table_other :: "table_state \<Rightarrow> string \<Rightarrow> table_state" where
  "table_other s line =
     (if inTable s
      then \<lparr>result = result s @ [''</tbody>'', ''</table>'', line], inTable = False, headerRow = True\<rparr>
      else s\<lparr>result := result s @ [line]\<rparr>)"

text \<open>\<open>i + 1 < lines.length && lines[i + 1].match(...)\<close>, on the lines after the current one.\<close>

fun separator_next :: "string list \<Rightarrow> bool" where
  "separator_next [] = False"
| "separator_next (l # ls) = re_test sep_re l"

text \<open>The loop over the lines; a header row skips the separator line after it.\<close>

fun table_loop :: "table_state \<Rightarrow> string list \<Rightarrow> table_state" where
  "table_loop s [] = s"
| "table_loop s (line # rest) =
     (if re_test row_re line then
        (if separator_next rest then table_loop (table_header s line) (drop 1 rest)
         else if inTable s then table_loop (table_row s line) rest
         else table_loop (s\<lparr>result := result s @ [line]\<rparr>) rest)
      else table_loop (table_other s line) rest)"

definition table_finish :: "table_state \<Rightarrow> string list" where
  "table_finish s = (if inTable s then result s @ [''</tbody>'', ''</table>''] else result s)"

definition convertTables :: "string \<Rightarrow> string" where
  "convertTables content =
     join [CHR 0x0A] (table_finish (table_loop table_init (split_on (CHR 0x0A) content)))"

subsection \<open>Table detection\<close>

lemma table_loop_grows: "\<exists>tail. result (table_loop s ls) = result s @ tail"
proof (induction s ls rule: table_loop.induct)
  case (1 s)
  then show ?case by simp
next
  case (2 s line rest)
  show ?case
  proof (cases "re_test row_re line")
    case row: True
    show ?thesis
    proof (cases "separator_next rest")
      case True
      from "2.IH"(1) [OF row True] obtain tail where
        "result (table_loop (table_header s line) (drop 1 rest)) = result (table_header s line) @ tail"
        by blast
      with row True show ?thesis by (simp add: table_header_def)
    next
      case nosep: False
      show ?thesis
      proof (cases "inTable s")
        case True
        from "2.IH"(2) [OF row nosep True] obtain tail where
          "result (table_loop (table_row s line) rest) = result (table_row s line) @ tail"
          by blast
        with row nosep True show ?thesis by (simp add: table_row_def)
      next
        case False
        from "2.IH"(3) [OF row nosep False] obtain tail where
          "result (table_loop (s\<lparr>result := result s @ [line]\<rparr>) rest) =
             result (s\<lparr>result := result s @ [line]\<rparr>) @ tail"
          by blast
        with row nosep False show ?thesis by simp
      qed
    qed
  next
    case False
    from "2.IH"(4) [OF False] obtain tail where
      "result (table_loop (table_other s line) rest) = result (table_other s line) @ tail"
      by blast
    with False show ?thesis by (simp add: table_other_def split: if_splits)
  qed
qed

lemma table_finish_grows: "\<exists>tail. table_finish (table_loop s ls) = result s @ tail"
  using table_loop_grows [of s ls] by (auto simp: table_finish_def)

text \<open>
  Claim C6 (as amended). When the scan reaches a pipe-delimited line while no table is
  open: if the next line is a separator line, the line opens a table whose header section
  holds its cells, the separator line is skipped, and these lines stand in the output
  right after what was emitted before; if no separator line follows, no table is opened
  and the line is emitted unchanged.
\<close>

theorem table_detection:
  assumes "re_test row_re line" and "\<not> inTable s"
  shows "(re_test sep_re sep \<longrightarrow>
            table_loop s (line # sep # rest) =
              table_loop \<lparr>result = result s @ [''<table>'', ''<thead>''] @ header_lines line,
                          inTable = True, headerRow = False\<rparr> rest \<and>
            (\<exists>tail. table_finish (table_loop s (line # sep # rest)) =
               result s @ [''<table>'', ''<thead>''] @ header_lines line @ tail)) \<and>
         (\<not> separator_next rest \<longrightarrow>
            table_loop s (line # rest) = table_loop (s\<lparr>result := result s @ [line]\<rparr>) rest \<and>
            inTable (s\<lparr>result := result s @ [line]\<rparr>) = False \<and>
            (\<exists>tail. table_finish (table_loop s (line # rest)) = result s @ [line] @ tail))"
proof (intro conjI impI)
  assume sep: "re_test sep_re sep"
  let ?s' = "\<lparr>result = result s @ [''<table>'', ''<thead>''] @ header_lines line,
              inTable = True, headerRow = False\<rparr>"
  from assms sep show eq: "table_loop s (line # sep # rest) = table_loop ?s' rest"
    by (simp add: table_header_def)
  from table_finish_grows [of ?s' rest] eq
  show "\<exists>tail. table_finish (table_loop s (line # sep # rest)) =
               result s @ [''<table>'', ''<thead>''] @ header_lines line @ tail"
    by auto
next
  assume "\<not> separator_next rest"
  with assms show eq: "table_loop s (line # rest) = table_loop (s\<lparr>result := result s @ [line]\<rparr>) rest"
    by simp
  from assms show "inTable (s\<lparr>result := result s @ [line]\<rparr>) = False" by simp
  from table_finish_grows [of "s\<lparr>result := result s @ [line]\<rparr>" rest] eq
  show "\<exists>tail. table_finish (table_loop s (line # rest)) = result s @ [line] @ tail"
    by auto
qed

theorem table_detection_witness:
  "re_test row_re ''|a|'' \<and> \<not> inTable table_init \<and> re_test sep_re ''|-|'' \<and>
   table_loop table_init [''|a|'', ''|-|'', ''|1|''] =
     table_loop \<lparr>result = [''<table>'', ''<thead>'', ''<tr>'', ''<th>a</th>'', ''</tr>'', ''</thead>'', ''<tbody>''],
                 inTable = True, headerRow = False\<rparr> [''|1|''] \<and>
   \<not> separator_next [''x''] \<and>
   table_loop table_init [''|a|'', ''x''] = table_loop (table_init\<lparr>result := [''|a|'']\<rparr>) [''x''] \<and>
   convertTables ''|a|\<newline>x'' = ''|a|\<newline>x''"
proof -
  have row: "re_test row_re ''|a|''" by code_simp
  have sep: "re_test sep_re ''|-|''" by code_simp
  have nosep: "\<not> separator_next [''x'']" by code_simp
  have out: "\<not> inTable table_init" by (simp add: table_init_def)
  have hl: "header_lines ''|a|'' = [''<tr>'', ''<th>a</th>'', ''</tr>'', ''</thead>'', ''<tbody>'']"
    by code_simp
  have res: "result table_init = []" by (simp add: table_init_def)
  have conv: "convertTables ''|a|\<newline>x'' = ''|a|\<newline>x''" by code_simp
  from table_detection [OF row out, of "''|-|''" "[''|1|'']"]
       table_detection [OF row out, of "''|-|''" "[''x'']"] sep nosep
  have "table_loop table_init [''|a|'', ''|-|'', ''|1|''] =
          table_loop \<lparr>result = result table_init @ [''<table>'', ''<thead>''] @ header_lines ''|a|'',
                      inTable = True, headerRow = False\<rparr> [''|1|'']"
    and "table_loop table_init [''|a|'', ''x''] =
          table_loop (table_init\<lparr>result := result table_init @ [''|a|'']\<rparr>) [''x'']"
    by blast+
  with row sep nosep out conv show ?thesis
    by (simp add: hl res)
qed

text \<open>
  The claim as it is written fails on the second of two separator lines: that line is
  pipe-delimited and a separator line follows it, but the scan skips it as the separator
  of the header before it, and the third line becomes a body row.
\<close>

theorem table_detection_counterexample:
  "re_test row_re ''|-|'' \<and> re_test sep_re ''|-|'' \<and>
   convertTables ''|a|\<newline>|-|\<newline>|-|'' =
     ''<table>\<newline><thead>\<newline><tr>\<newline><th>a</th>\<newline></tr>\<newline></thead>\<newline><tbody>\<newline><tr>\<newline><td>-</td>\<newline></tr>\<newline></tbody>\<newline></table>''"
  by code_simp

text \<open>
  Claim C7. A table has one header section at most. The code breaks this: a row followed
  by a separator line inside an open table is emitted as a second header row, closed by a
  second \<open></thead>\<close> and followed by a second \<open><tbody>\<close>, inside the same table element.
\<close>

theorem second_header_in_open_table:
  "convertTables ''|a|\<newline>|-|\<newline>|b|\<newline>|-|'' =
     ''<table>\<newline><thead>\<newline><tr>\<newline><th>a</th>\<newline></tr>\<newline></thead>\<newline><tbody>\<newline><tr>\<newline><th>b</th>\<newline></tr>\<newline></thead>\<newline><tbody>\<newline></tbody>\<newline></table>''"
  by code_simp

section \<open>converter.ts: the conversion\<close>

definition lits :: "string \<Rightarrow> item list" where
  "lits s = map Lit s"

fun digit_char :: "nat \<Rightarrow> char" where
  "digit_char n = ''0123456789'' ! (n mod 10)"

fun show_nat :: "nat \<Rightarrow> string" where
  "show_nat n = (if n < 10 then [digit_char n] else show_nat (n div 10) @ [digit_char n])"

definition to_lower :: "char \<Rightarrow> char" where
  "to_lower c = (case map_of (zip ''ABCDEFGHIJKLMNOPQRSTUVWXYZ'' ''abcdefghijklmnopqrstuvwxyz'') c of
                   Some l \<Rightarrow> l | None \<Rightarrow> c)"

text \<open>
  \<open>createCodeBlockPlaceholder\<close>, with the counter as its argument, and the table
  \<open>languageMap\<close> of \<open>createConfluenceCodeBlock\<close>. The table is an object literal, so a
  look-up finds the properties of \<open>Object.prototype\<close> as well. The key of the look-up is in
  lower case, which leaves \<open>constructor\<close> and \<open>__proto__\<close> of these: a function and an
  object, both truthy, with the texts below in a template (the text of the function is
  the one of V8).
\<close>

definition createCodeBlockPlaceholder :: "nat \<Rightarrow> string" where
  "createCodeBlockPlaceholder n = ''__CODEBLOCK_'' @ show_nat n @ ''__''"

definition languageMap :: "(string \<times> string) list" where
  "languageMap =
     [(''js'', ''javascript''), (''ts'', ''typescript''), (''tsx'', ''typescript''),
      (''jsx'', ''javascript''), (''bash'', ''bash''), (''shell'', ''bash''), (''sh'', ''bash''),
      (''py'', ''python''), (''yml'', ''yaml''), (''json'', ''javascript''), (''xml'', ''xml''),
      (''html'', ''html''), (''css'', ''css''), (''sql'', ''sql''), (''java'', ''java''),
      (''c'', ''c''), (''cpp'', ''cpp''), (''c++'', ''cpp''), (''cs'', ''csharp''),
      (''c#'', ''csharp''), (''go'', ''go''), (''rust'', ''rust''), (''ruby'', ''ruby''),
      (''rb'', ''ruby''), (''php'', ''php''), (''swift'', ''swift''), (''kotlin'', ''kotlin''),
      (''r'', ''r''), (''matlab'', ''matlab''), (''scala'', ''scala''), (''perl'', ''perl''),
      (''lua'', ''lua''), (''haskell'', ''haskell''), (''clojure'', ''clojure''),
      (''groovy'', ''groovy''), (''powershell'', ''powershell''), (''ps1'', ''powershell''),
      (''dockerfile'', ''docker''), (''makefile'', ''makefile''), (''nginx'', ''nginx''),
      (''apache'', ''apache''), (''ini'', ''ini''), (''toml'', ''toml''),
      (''properties'', ''properties''), (''diff'', ''diff''), (''patch'', ''diff'')]"

definition inherited :: "(string \<times> string) list" where
  "inherited =
     [(''constructor'', ''function Object() { [native code] }''),
      (''__proto__'', ''[object Object]'')]"

text \<open>\<open>a || b\<close> on strings: the empty string is falsy.\<close>

definition or_else :: "string \<Rightarrow> string \<Rightarrow> string" where
  "or_else a b = (if a = [] then b else a)"

definition createConfluenceCodeBlock :: "string \<Rightarrow> string \<Rightarrow> string" where
  \<open>createConfluenceCodeBlock language content =
     (let mappedLanguage =
            (case map_of (languageMap @ inherited) (map to_lower language) of
               Some l \<Rightarrow> l
             | None \<Rightarrow> or_else language ''text'')
      in ''<ac:structured-macro ac:name="code">'' @ [CHR 0x0A] @
         ''<ac:parameter ac:name="language">'' @ mappedLanguage @ ''</ac:parameter>'' @ [CHR 0x0A] @
         ''<ac:parameter ac:name="linenumbers">true</ac:parameter>'' @ [CHR 0x0A] @
         ''<ac:plain-text-body><![CDATA['' @ content @ '']]></ac:plain-text-body>'' @ [CHR 0x0A] @
         ''</ac:structured-macro>'')\<close>

text \<open>\<open>escapeHtml\<close>: \<open>/[&<>"']/g\<close> with the table \<open>escapeMap\<close>.\<close>

definition escapeMap :: "(char \<times> string) list" where
  "escapeMap = [(CHR ''&'', ''&amp;''), (CHR ''<'', ''&lt;''), (CHR ''>'', ''&gt;''),
                (CHR 0x22, ''&quot;''), (CHR 0x27, ''&#39;'')]"

definition escape_re :: regex where
  "escape_re = Regex False False [One (CIn [CHR ''&'', CHR ''<'', CHR ''>'', CHR 0x22, CHR 0x27])]"

definition escapeHtml :: "string \<Rightarrow> string" where
  "escapeHtml txt =
     replace_all_fn escape_re
       (\<lambda>m caps. case m of c # _ \<Rightarrow> (case map_of escapeMap c of Some e \<Rightarrow> e | None \<Rightarrow> m) | [] \<Rightarrow> m)
       txt"

text \<open>
  \<open>extractCodeBlocks\<close>: the fenced blocks \<open>/```(\w*)\n([\s\S]*?)```/g\<close> first, the inline
  code \<open>/`([^`\n]+)`/g\<close> second. The state is the counter and the map \<open>codeBlocks\<close>, kept
  as the list of its entries in the order of insertion (the keys are distinct).
\<close>

definition fence :: string where
  "fence = [CHR 0x60, CHR 0x60, CHR 0x60]"

definition fenced_re :: regex where
  "fenced_re = Regex False False
     (lits fence @ [GOpen, Rep CWord 0 True, GClose, Lit (CHR 0x0A),
                    GOpen, Rep CAny 0 False, GClose] @ lits fence)"

definition inline_code_re :: regex where
  "inline_code_re = Regex False False
     [Lit (CHR 0x60), GOpen, Rep (CNotIn [CHR 0x60, CHR 0x0A]) 1 True, GClose, Lit (CHR 0x60)]"

type_synonym code_state = "nat \<times> (string \<times> string) list"

fun replace_blocks :: "(string list \<Rightarrow> string) \<Rightarrow> seg list \<Rightarrow> code_state \<Rightarrow> string \<times> code_state" where
  "replace_blocks mk [] st = ([], st)"
| "replace_blocks mk (Keep c # segs) st =
     (case replace_blocks mk segs st of (out, st') \<Rightarrow> (c # out, st'))"
| "replace_blocks mk (Hit m caps pre post # segs) (counter, blocks) =
     (let placeholder = createCodeBlockPlaceholder counter in
      case replace_blocks mk segs (Suc counter, blocks @ [(placeholder, mk caps)]) of
        (out, st') \<Rightarrow> (placeholder @ out, st'))"

definition extractCodeBlocks :: "string \<Rightarrow> code_state \<Rightarrow> string \<times> code_state" where
  "extractCodeBlocks content st =
     (case replace_blocks (\<lambda>caps. createConfluenceCodeBlock (or_else (caps ! 0) ''text'') (caps ! 1))
             (re_scan fenced_re [] content 0) st of
        (content1, st1) \<Rightarrow>
          replace_blocks (\<lambda>caps. ''<code>'' @ escapeHtml (caps ! 0) @ ''</code>'')
            (re_scan inline_code_re [] content1 0) st1)"

text \<open>\<open>restoreCodeBlocks\<close>: one \<open>content.replace(placeholder, block)\<close> per entry, in order.\<close>

definition restoreCodeBlocks :: "(string \<times> string) list \<Rightarrow> string \<Rightarrow> string" where
  "restoreCodeBlocks blocks content =
     foldl (\<lambda>content (placeholder, block). str_replace content placeholder block) content blocks"

text \<open>The rewriting rules of \<open>convertMarkdownToConfluence\<close>, in the order of the source.\<close>

definition heading_re :: "nat \<Rightarrow> regex" where
  "heading_re n = Regex False True
     ([Bol] @ lits (replicate n CHR ''#'') @ [Rep CSpace 1 True, GOpen, Rep CDot 1 True, GClose, Eol])"

definition heading :: "nat \<Rightarrow> string \<Rightarrow> string" where
  "heading n = replace_all (heading_re n) (''<h'' @ show_nat n @ ''>$1</h'' @ show_nat n @ ''>'')"

definition wrapped_re :: "string \<Rightarrow> regex" where
  "wrapped_re marker = Regex False False
     (lits marker @ [GOpen, Rep CDot 1 False, GClose] @ lits marker)"

definition link_re :: regex where
  "link_re = Regex False False
     [Lit CHR ''['', GOpen, Rep (CNotIn '']'') 1 True, GClose, Lit CHR '']'', Lit CHR ''('',
      GOpen, Rep (CNotIn '')'') 1 True, GClose, Lit CHR '')'']"

definition image_re :: regex where
  "image_re = Regex False False
     [Lit CHR ''!'', Lit CHR ''['', GOpen, Rep (CNotIn '']'') 0 True, GClose, Lit CHR '']'',
      Lit CHR ''('', GOpen, Rep (CNotIn '')'') 1 True, GClose, Lit CHR '')'']"

definition rule_re :: "char \<Rightarrow> regex" where
  "rule_re c = Regex False True [Bol, Lit c, Lit c, Rep (CIn [c]) 1 True, Eol]"

definition blockquote_re :: regex where
  "blockquote_re = Regex False True
     [Bol, Lit CHR ''>'', Rep CSpace 1 True, GOpen, Rep CDot 1 True, GClose, Eol]"

definition blank_lines_re :: regex where
  "blank_lines_re = Regex False False [Lit (CHR 0x0A), Rep (CIn [CHR 0x0A]) 1 True]"

definition newline_re :: regex where
  "newline_re = Regex False False [Lit (CHR 0x0A)]"

definition empty_paragraph_re :: regex where
  "empty_paragraph_re = Regex False False (lits ''<p></p>'')"

definition paragraph_heading_re :: regex where
  "paragraph_heading_re = Regex False False
     (lits ''<p>'' @ [GOpen] @ lits ''<h'' @ [One (CIn ''123456'')] @ lits ''>'' @ [GClose])"

definition heading_paragraph_re :: regex where
  "heading_paragraph_re = Regex False False
     ([GOpen] @ lits ''</h'' @ [One (CIn ''123456'')] @ lits ''>'' @ [GClose] @ lits ''</p>'')"

definition inline_rules :: "string \<Rightarrow> string" where
  \<open>inline_rules =
     replace_all image_re ''<ac:image><ri:url ri:value="$2" /></ac:image>'' \<circ>
     replace_all link_re ''<a href="$2">$1</a>'' \<circ>
     replace_all (wrapped_re ''~~'') ''<del>$1</del>'' \<circ>
     replace_all (wrapped_re ''_'') ''<em>$1</em>'' \<circ>
     replace_all (wrapped_re ''__'') ''<strong>$1</strong>'' \<circ>
     replace_all (wrapped_re ''___'') ''<strong><em>$1</em></strong>'' \<circ>
     replace_all (wrapped_re ''*'') ''<em>$1</em>'' \<circ>
     replace_all (wrapped_re ''**'') ''<strong>$1</strong>'' \<circ>
     replace_all (wrapped_re ''***'') ''<strong><em>$1</em></strong>''\<close>

definition headings :: "string \<Rightarrow> string" where
  "headings = heading 1 \<circ> heading 2 \<circ> heading 3 \<circ> heading 4 \<circ> heading 5 \<circ> heading 6"

definition block_rules :: "string \<Rightarrow> string" where
  "block_rules =
     convertTables \<circ> convertLists \<circ>
     replace_all blockquote_re ''<blockquote>$1</blockquote>'' \<circ>
     replace_all (rule_re CHR ''*'') ''<hr />'' \<circ>
     replace_all (rule_re CHR ''-'') ''<hr />''"

definition line_breaks :: "string \<Rightarrow> string" where
  "line_breaks = replace_all newline_re ''<br />'' \<circ> replace_all blank_lines_re ''</p><p>''"

definition wrap_paragraph :: "string \<Rightarrow> string" where
  "wrap_paragraph content =
     (if starts_with content ''<'' then content else ''<p>'' @ content @ ''</p>'')"

definition clean_paragraphs :: "string \<Rightarrow> string" where
  "clean_paragraphs =
     replace_all heading_paragraph_re ''$1'' \<circ>
     replace_all paragraph_heading_re ''$1'' \<circ>
     replace_all empty_paragraph_re ''''"

definition convertMarkdownToConfluence :: "string \<Rightarrow> string" where
  "convertMarkdownToConfluence =
     clean_paragraphs \<circ> wrap_paragraph \<circ> line_breaks \<circ> block_rules \<circ> inline_rules \<circ> headings"

text \<open>\<open>convert\<close> resets the counter and the map, so it is a function of the markdown alone.\<close>

definition convert :: "string \<Rightarrow> string" where
  "convert markdown =
     (case extractCodeBlocks markdown (0, []) of
        (processed, (counter, blocks)) \<Rightarrow>
          restoreCodeBlocks blocks (convertMarkdownToConfluence processed))"

subsection \<open>Code spans\<close>

text \<open>
  Claim C4. Code spans are to appear verbatim in the output. The code breaks this: the
  placeholder \<open>__CODEBLOCK_0__\<close> that stands for a code span is itself rewritten by the
  rule for \<open>__bold__\<close>, so \<open>restoreCodeBlocks\<close> finds nothing to replace and the code is
  lost, for an inline span and for a fenced block alike.
\<close>

theorem code_placeholder_rewritten:
  "convert [CHR 0x60, CHR ''x'', CHR 0x60] = ''<strong>CODEBLOCK_0</strong>'' \<and>
   convert (fence @ ''js\<newline>a < b\<newline>'' @ fence) = ''<strong>CODEBLOCK_0</strong>''"
  by code_simp

section \<open>The outside world\<close>

text \<open>
  What a JavaScript function throws is any value. The handlers of the source ask three
  things of it: whether it is an \<open>Error\<close> object (\<open>instanceof Error\<close>), what its property
  \<open>message\<close> holds, and what text it gives in a template. So a thrown value is an \<open>Error\<close>
  object with its name and its message; or another value that is neither \<open>undefined\<close> nor
  \<open>null\<close>, with the text of its \<open>message\<close> when that is truthy, and its own text; or
  \<open>undefined\<close>; or \<open>null\<close>.
\<close>

datatype js_error =
    Error string string
  | Value "string option" string
  | Undefined
  | Null

text \<open>\<open>new Error(m)\<close>\<close>

abbreviation new_Error :: "string \<Rightarrow> js_error" where
  "new_Error m \<equiv> Error ''Error'' m"

definition is_Error :: "js_error \<Rightarrow> bool" where
  "is_Error e = (case e of Error n m \<Rightarrow> True | _ \<Rightarrow> False)"

text \<open>The text of a thrown value in a template; for an \<open>Error\<close> it is \<open>Error.prototype.toString\<close>.\<close>

definition to_string :: "js_error \<Rightarrow> string" where
  "to_string e =
     (case e of
        Error n m \<Rightarrow> (if n = [] then m else if m = [] then n else n @ '': '' @ m)
      | Value m t \<Rightarrow> t
      | Undefined \<Rightarrow> ''undefined''
      | Null \<Rightarrow> ''null'')"

text \<open>
  Reading the property \<open>p\<close> of \<open>undefined\<close> or \<open>null\<close> throws a \<open>TypeError\<close> (the message is the
  one of V8).
\<close>

definition type_error :: "string \<Rightarrow> string \<Rightarrow> js_error" where
  "type_error v p =
     Error ''TypeError'' (''Cannot read properties of '' @ v @ '' (reading '' @ [CHR 0x27] @ p @ [CHR 0x27] @ '')'')"

text \<open>
  \<open>error.message\<close>, as far as \<open>error.message || other\<close> needs it: the message when it is
  truthy. Reading it throws when the value is \<open>undefined\<close> or \<open>null\<close>.
\<close>

definition message_of :: "js_error \<Rightarrow> js_error + string option" where
  "message_of e =
     (case e of
        Error n m \<Rightarrow> Inr (if m = [] then None else Some m)
      | Value m t \<Rightarrow> Inr m
      | Undefined \<Rightarrow> Inl (type_error ''undefined'' ''message'')
      | Null \<Rightarrow> Inl (type_error ''null'' ''message''))"

text \<open>\<open>if (error instanceof Error) throw error; throw new Error(prefix + error)\<close>\<close>

definition rethrow :: "string \<Rightarrow> js_error \<Rightarrow> js_error" where
  "rethrow prefix e = (if is_Error e then e else new_Error (prefix @ to_string e))"

text \<open>
  \<open>throw new Error(`Network error: ${networkError.message || networkError}`)\<close>: what this
  statement throws, which is the \<open>TypeError\<close> when \<open>networkError\<close> is \<open>undefined\<close> or \<open>null\<close>.
\<close>

definition network_error :: "js_error \<Rightarrow> js_error" where
  "network_error e =
     (case message_of e of
        Inl te \<Rightarrow> te
      | Inr (Some m) \<Rightarrow> new_Error (''Network error: '' @ m)
      | Inr None \<Rightarrow> new_Error (''Network error: '' @ to_string e))"

text \<open>
  Numbers are IEEE doubles. The version number of a page is taken to be an integer (every
  integer below \<open>2^53\<close> in magnitude is a double; beyond, the doubles are the integers
  with 53 significant bits). A sum is the double nearest to the exact sum, the one with
  the even mantissa when two are equally near: \<open>round_double\<close> is that rounding on the
  integers. Adding one never leaves the range of the doubles.
\<close>

function bit_length :: "int \<Rightarrow> nat" where
  "bit_length a = (if a \<le> 0 then 0 else Suc (bit_length (a div 2)))"
  by auto
termination by (relation "measure nat") auto

declare bit_length.simps [simp del]

definition round_double :: "int \<Rightarrow> int" where
  "round_double x =
     (let a = abs x; e = bit_length a - 53 in
      if e = 0 then x
      else
        (let q = a div 2 ^ e; r = a mod 2 ^ e; h = 2 ^ (e - 1);
             q' = (if r < h \<or> (r = h \<and> even q) then q else q + 1)
         in sgn x * (q' * 2 ^ e)))"

definition js_plus :: "int \<Rightarrow> int \<Rightarrow> int" where
  "js_plus a b = round_double (a + b)"

text \<open>
  A request of \<open>requestUrl\<close> and its response. The body of the one request that carries
  JSON, the update of \<open>updatePage\<close>, is kept structured: the version number, the title
  and the storage value (its \<open>type\<close> is always \<open>page\<close>, its representation \<open>storage\<close>).
  Of a response the model keeps the status, the text, the page that \<open>response.json\<close>
  holds (its version number and title; \<open>None\<close> when it holds \<open>undefined\<close>), and the two
  messages that \<open>updatePage\<close> reads from an error body: \<open>message\<close> and
  \<open>data.errors[0].message\<close> of the parsed body, each when it is truthy.
\<close>

datatype http_body = NoBody | UpdateRequest int string string

record request =
  req_url :: string
  req_method :: string
  req_headers :: "(string \<times> string) list"
  req_body :: http_body

record page =
  page_version :: int
  page_title :: string

record response =
  resp_status :: int
  resp_text :: string
  resp_page :: "page option"
  resp_message :: "string option"
  resp_first_error :: "string option"

text \<open>
  The log of what the code did: every \<open>requestUrl\<close> with what it returned or threw, every
  \<open>renderToSvg\<close> with its result or what it threw, every \<open>updatePage\<close> and every
  \<open>uploadAttachment\<close> with whether it returned (\<open>True\<close>) or threw. An \<open>updatePage\<close> entry
  stands after the requests of that call.
\<close>

datatype event =
    Request request "js_error + response"
  | Render string "js_error + string option"
  | Publish string string bool
  | Upload string string string bool

text \<open>
  The state: the world outside (of any type \<open>'w\<close>), the log, and \<open>settings.lastPageId\<close>,
  the one setting the code writes.
\<close>

record 'w sys =
  world :: 'w
  trace :: "event list"
  lastPageId :: string

definition emit :: "event \<Rightarrow> 'w sys \<Rightarrow> 'w sys" where
  "emit e s = s\<lparr>trace := trace s @ [e]\<rparr>"

text \<open>
  The collaborators, each a function of the world that returns a result or what it
  throws, and the next world: \<open>requestUrl\<close> of the host application; \<open>marked.parse\<close>,
  a function of the text alone, which returns a text or throws;
  \<open>mermaid.parse\<close>, \<open>mermaid.render\<close> and \<open>mermaid.init\<close> followed by the look-up of the
  rendered \<open>svg\<close> element; whether \<open>document\<close> is defined; \<open>btoa\<close>; \<open>saveData\<close> and the
  clipboard. The body of \<open>ConfluenceAPI.uploadAttachment\<close> is taken as a collaborator too:
  the theorems below hold whatever it does. The console, the notices, the progress window
  and the elements of the document are taken not to throw.
\<close>

record 'w env =
  requestUrl :: "request \<Rightarrow> 'w \<Rightarrow> (js_error + response) \<times> 'w"
  marked_parse :: "string \<Rightarrow> js_error + string"
  document_defined :: bool
  mermaid_parse :: "string \<Rightarrow> 'w \<Rightarrow> (js_error + unit) \<times> 'w"
  mermaid_render :: "string \<Rightarrow> 'w \<Rightarrow> (js_error + string) \<times> 'w"
  mermaid_init :: "string \<Rightarrow> 'w \<Rightarrow> (js_error + string option) \<times> 'w"
  btoa :: "string \<Rightarrow> string"
  upload_attachment :: "string \<Rightarrow> string \<Rightarrow> string \<Rightarrow> 'w \<Rightarrow> (js_error + string) \<times> 'w"
  saveData :: "'w \<Rightarrow> (js_error + unit) \<times> 'w"
  clipboard_writeText :: "string \<Rightarrow> 'w \<Rightarrow> (js_error + unit) \<times> 'w"

section \<open>confluenceApi.ts\<close>

datatype auth_type = bearer | basic

record settings =
  apiToken :: string
  baseUrl :: string
  useEnvironmentToken :: bool
  authType :: auth_type
  username :: string

definition getAuthToken :: "settings \<Rightarrow> string" where
  "getAuthToken st = (if useEnvironmentToken st then apiToken st else apiToken st)"

definition getHeaders :: "'w env \<Rightarrow> settings \<Rightarrow> js_error + (string \<times> string) list" where
  "getHeaders env st =
     (let token = getAuthToken st in
      if authType st = basic then
        (if username st = [] \<or> token = [] then
           Inl (new_Error ''Username and API token/password are required for Basic authentication. Please check settings.'')
         else Inr [(''Authorization'', ''Basic '' @ btoa env (username st @ '':'' @ token)),
                   (''Content-Type'', ''application/json''), (''Accept'', ''application/json'')])
      else
        (if token = [] then Inl (new_Error ''API token not configured. Please check settings.'')
         else Inr [(''Authorization'', ''Bearer '' @ token),
                   (''Content-Type'', ''application/json''), (''Accept'', ''application/json'')]))"

text \<open>One call of \<open>requestUrl\<close>, logged with its outcome.\<close>

definition do_request :: "'w env \<Rightarrow> request \<Rightarrow> 'w sys \<Rightarrow> (js_error + response) \<times> 'w sys" where
  "do_request env req s =
     (case requestUrl env req (world s) of
        (r, w') \<Rightarrow> (r, emit (Request req r) (s\<lparr>world := w'\<rparr>)))"

fun show_int :: "int \<Rightarrow> string" where
  "show_int i = (if i < 0 then ''-'' @ show_nat (nat (- i)) else show_nat (nat i))"

text \<open>The two requests of \<open>updatePage\<close>: the \<open>GET\<close> of \<open>getPage\<close> and the \<open>PUT\<close>.\<close>

definition get_request :: "settings \<Rightarrow> string \<Rightarrow> (string \<times> string) list \<Rightarrow> request" where
  "get_request st pageId hs =
     \<lparr>req_url = baseUrl st @ ''/rest/api/content/'' @ pageId @ ''?expand=version,body.storage'',
      req_method = ''GET'', req_headers = hs, req_body = NoBody\<rparr>"

definition put_request ::
  "settings \<Rightarrow> string \<Rightarrow> (string \<times> string) list \<Rightarrow> int \<Rightarrow> string \<Rightarrow> string \<Rightarrow> request" where
  "put_request st pageId hs newVersion pageTitle content =
     \<lparr>req_url = baseUrl st @ ''/rest/api/content/'' @ pageId, req_method = ''PUT'',
      req_headers = hs, req_body = UpdateRequest newVersion pageTitle content\<rparr>"

definition getPage :: "'w env \<Rightarrow> settings \<Rightarrow> string \<Rightarrow> 'w sys \<Rightarrow> (js_error + page option) \<times> 'w sys" where
  "getPage env st pageId s =
     (if pageId = [] then (Inl (new_Error ''Page ID is required''), s)
      else case getHeaders env st of
        Inl e \<Rightarrow> (Inl (rethrow ''Failed to fetch page: '' e), s)
      | Inr hs \<Rightarrow>
          (case do_request env (get_request st pageId hs) s of
             (Inl e, s1) \<Rightarrow> (Inl (rethrow ''Failed to fetch page: '' e), s1)
           | (Inr resp, s1) \<Rightarrow>
               if resp_status resp \<noteq> 200 then
                 (Inl (new_Error (''Failed to fetch page: '' @ show_int (resp_status resp) @ '' - '' @ resp_text resp)), s1)
               else (Inr (resp_page resp), s1)))"

text \<open>The message of a response outside 200..299, as \<open>updatePage\<close> builds it.\<close>

definition update_failure :: "response \<Rightarrow> string" where
  "update_failure resp =
     ''Failed to update page: '' @ show_int (resp_status resp) @
     (case resp_message resp of Some m \<Rightarrow> '': '' @ m | None \<Rightarrow> []) @
     (case resp_first_error resp of Some m \<Rightarrow> '': '' @ m | None \<Rightarrow> [])"

text \<open>\<open>title || currentPage.title\<close>\<close>

definition title_sent :: "string option \<Rightarrow> page \<Rightarrow> string" where
  "title_sent title pg = (case title of Some t \<Rightarrow> or_else t (page_title pg) | None \<Rightarrow> page_title pg)"

text \<open>
  \<open>updatePage\<close> without its log entry. Reading \<open>version\<close> of a body that holds no page
  throws a \<open>TypeError\<close>. What the \<open>PUT\<close> throws, and what \<open>getHeaders\<close> throws when the
  request is built, is caught by the inner handler, which throws a network error. Every
  error passes the outer handler, which wraps what is not an \<open>Error\<close>.
\<close>

definition update_page_steps ::
  "'w env \<Rightarrow> settings \<Rightarrow> string \<Rightarrow> string \<Rightarrow> string option \<Rightarrow> 'w sys \<Rightarrow> (js_error + unit) \<times> 'w sys" where
  "update_page_steps env st pageId content title s =
     (if pageId = [] then (Inl (new_Error ''Page ID is required''), s)
      else case getPage env st pageId s of
        (Inl e, s1) \<Rightarrow> (Inl (rethrow ''Failed to update page: '' e), s1)
      | (Inr None, s1) \<Rightarrow>
          (Inl (rethrow ''Failed to update page: '' (type_error ''undefined'' ''version'')), s1)
      | (Inr (Some currentPage), s1) \<Rightarrow>
          (let newVersion = js_plus (page_version currentPage) 1;
               pageTitle = title_sent title currentPage
           in case getHeaders env st of
                Inl e \<Rightarrow> (Inl (rethrow ''Failed to update page: '' (network_error e)), s1)
              | Inr hs \<Rightarrow>
                  (case do_request env (put_request st pageId hs newVersion pageTitle content) s1 of
                     (Inl e, s2) \<Rightarrow> (Inl (rethrow ''Failed to update page: '' (network_error e)), s2)
                   | (Inr resp, s2) \<Rightarrow>
                       if resp_status resp < 200 \<or> 300 \<le> resp_status resp
                       then (Inl (rethrow ''Failed to update page: '' (new_Error (update_failure resp))), s2)
                       else (Inr (), s2\<lparr>lastPageId := pageId\<rparr>))))"

definition returned :: "'e + 'a \<Rightarrow> bool" where
  "returned r = (case r of Inl _ \<Rightarrow> False | Inr _ \<Rightarrow> True)"

definition updatePage ::
  "'w env \<Rightarrow> settings \<Rightarrow> string \<Rightarrow> string \<Rightarrow> string option \<Rightarrow> 'w sys \<Rightarrow> (js_error + unit) \<times> 'w sys" where
  "updatePage env st pageId content title s =
     (case update_page_steps env st pageId content title s of
        (r, s') \<Rightarrow> (r, emit (Publish pageId content (returned r)) s'))"

text \<open>
  \<open>uploadAttachment\<close>: the check of its arguments; then the body of its \<open>try\<close> block, which
  is the collaborator; its handler wraps what is not an \<open>Error\<close>.
\<close>

definition uploadAttachment ::
  "'w env \<Rightarrow> string \<Rightarrow> string \<Rightarrow> string \<Rightarrow> 'w sys \<Rightarrow> (js_error + string) \<times> 'w sys" where
  "uploadAttachment env pageId fileName content s =
     (if pageId = [] \<or> fileName = [] \<or> content = [] then
        (Inl (new_Error ''Page ID, file name, and content are required''),
         emit (Upload pageId fileName content False) s)
      else case upload_attachment env pageId fileName content (world s) of
        (r, w') \<Rightarrow>
          (case r of Inl e \<Rightarrow> Inl (rethrow ''Failed to upload attachment: '' e) | Inr f \<Rightarrow> Inr f,
           emit (Upload pageId fileName content (returned r)) (s\<lparr>world := w'\<rparr>)))"

definition getPageUrl :: "settings \<Rightarrow> string \<Rightarrow> string" where
  "getPageUrl st pageId = baseUrl st @ ''/pages/viewpage.action?pageId='' @ pageId"

section \<open>mermaidRenderer.ts\<close>

text \<open>
  \<open>renderToSvg\<close>: the result is the SVG text or \<open>null\<close>. A parse error gives \<open>null\<close>. When
  \<open>mermaid.render\<close> throws, the fall-back through \<open>mermaid.init\<close> returns the rendered
  element when there is one; otherwise the error of \<open>mermaid.render\<close> is thrown again and
  reaches the outer handler, which reads \<open>error.message\<close> before it returns \<open>null\<close>: when
  the value thrown is \<open>undefined\<close> or \<open>null\<close> that reading throws, and \<open>renderToSvg\<close> throws
  the \<open>TypeError\<close>.
\<close>

definition render_handler :: "js_error \<Rightarrow> js_error + string option" where
  "render_handler error = (case message_of error of Inl te \<Rightarrow> Inl te | Inr m \<Rightarrow> Inr None)"

definition render_steps :: "'w env \<Rightarrow> string \<Rightarrow> 'w \<Rightarrow> (js_error + string option) \<times> 'w" where
  "render_steps env code w =
     (if \<not> document_defined env then (Inr None, w)
      else case mermaid_parse env code w of
        (Inl parseError, w1) \<Rightarrow> (Inr None, w1)
      | (Inr _, w1) \<Rightarrow>
          (case mermaid_render env code w1 of
             (Inr svg, w2) \<Rightarrow> (Inr (Some svg), w2)
           | (Inl renderError, w2) \<Rightarrow>
               (case mermaid_init env code w2 of
                  (Inr (Some svgString), w3) \<Rightarrow> (Inr (Some svgString), w3)
                | (Inr None, w3) \<Rightarrow> (render_handler renderError, w3)
                | (Inl fallbackError, w3) \<Rightarrow> (render_handler renderError, w3))))"

definition renderToSvg :: "'w env \<Rightarrow> string \<Rightarrow> 'w sys \<Rightarrow> (js_error + string option) \<times> 'w sys" where
  "renderToSvg env code s =
     (case render_steps env code (world s) of
        (r, w') \<Rightarrow> (r, emit (Render code r) (s\<lparr>world := w'\<rparr>)))"

record mermaid_item =
  index :: nat
  svg :: "string option"
  code :: string

text \<open>The pattern of \<open>processMermaidBlocks\<close>: \<open>/```mermaid\n([\s\S]*?)```/g\<close>.\<close>

definition mermaidRegex :: regex where
  "mermaidRegex = Regex False False
     (lits (fence @ ''mermaid'') @ [Lit (CHR 0x0A), GOpen, Rep CAny 0 False, GClose] @ lits fence)"

text \<open>
  The loop of \<open>mermaidRegex.exec\<close>: of every match the trimmed first group and the whole
  match.
\<close>

fun match_list :: "seg list \<Rightarrow> (string \<times> string) list" where
  "match_list [] = []"
| "match_list (Keep c # segs) = match_list segs"
| "match_list (Hit m caps pre post # segs) = (trim (caps ! 0), m) # match_list segs"

definition mermaid_matches :: "string \<Rightarrow> (string \<times> string) list" where
  "mermaid_matches markdown = match_list (re_scan mermaidRegex [] markdown 0)"

definition mermaid_placeholder :: "nat \<Rightarrow> string" where
  "mermaid_placeholder i = ''<!--MERMAID_PLACEHOLDER_'' @ show_nat i @ ''-->''"

text \<open>\<open>if (svg)\<close>: \<open>null\<close> and the empty string are falsy.\<close>

definition truthy :: "string option \<Rightarrow> string option" where
  "truthy v = (case v of None \<Rightarrow> None | Some x \<Rightarrow> if x = [] then None else Some x)"

text \<open>
  The loop over the matches: the state is \<open>index\<close>, \<open>processedMarkdown\<close> and \<open>mermaidData\<close>.
  A \<open>renderToSvg\<close> that throws ends the loop.
\<close>

fun process_matches ::
  "'w env \<Rightarrow> (string \<times> string) list \<Rightarrow> nat \<Rightarrow> string \<Rightarrow> mermaid_item list \<Rightarrow> 'w sys
     \<Rightarrow> (js_error + string \<times> mermaid_item list) \<times> 'w sys" where
  "process_matches env [] i processedMarkdown mermaidData s = (Inr (processedMarkdown, mermaidData), s)"
| "process_matches env ((c, fullMatch) # matches) i processedMarkdown mermaidData s =
     (case renderToSvg env c s of
        (Inl e, s1) \<Rightarrow> (Inl e, s1)
      | (Inr r, s1) \<Rightarrow>
          process_matches env matches (Suc i)
            (str_replace processedMarkdown fullMatch (mermaid_placeholder i))
            (mermaidData @ [\<lparr>index = i, svg = truthy r, code = c\<rparr>]) s1)"

definition processMermaidBlocks ::
  "'w env \<Rightarrow> string \<Rightarrow> 'w sys \<Rightarrow> (js_error + string \<times> mermaid_item list) \<times> 'w sys" where
  "processMermaidBlocks env markdown s =
     process_matches env (mermaid_matches markdown) 0 markdown [] s"

definition generateConfluenceMarkup :: "string option \<Rightarrow> string \<Rightarrow> string" where
  \<open>generateConfluenceMarkup filename c =
     (case truthy filename of
        Some f \<Rightarrow> ''<ac:image ac:height="400"><ri:attachment ri:filename="'' @ f @ ''" /></ac:image>''
      | None \<Rightarrow>
          ''<ac:structured-macro ac:name="code">'' @ [CHR 0x0A] @
          ''                <ac:parameter ac:name="language">mermaid</ac:parameter>'' @ [CHR 0x0A] @
          ''                <ac:parameter ac:name="title">Mermaid Diagram</ac:parameter>'' @ [CHR 0x0A] @
          ''                <ac:plain-text-body><![CDATA['' @ c @ '']]></ac:plain-text-body>'' @ [CHR 0x0A] @
          ''            </ac:structured-macro>'')\<close>

section \<open>simpleConverter.ts\<close>

text \<open>
  The final clean-up of \<open>convert\<close>, in the order of the source: \<open>/<hr\s*>/gi\<close>,
  \<open>/<hr\s*\/\s*>/gi\<close>, the same two for \<open>br\<close>, \<open>/<img([^>]+)(?<!\/)\s*>/gi\<close>, \<open>/<\/hr>/gi\<close>
  and \<open>/<\/br>/gi\<close>.
\<close>

definition open_tag_re :: "string \<Rightarrow> regex" where
  "open_tag_re name = Regex True False
     (lits (''<'' @ name) @ [Rep CSpace 0 True, Lit CHR ''>''])"

definition slash_tag_re :: "string \<Rightarrow> regex" where
  "slash_tag_re name = Regex True False
     (lits (''<'' @ name) @ [Rep CSpace 0 True, Lit CHR ''/'', Rep CSpace 0 True, Lit CHR ''>''])"

definition img_re :: regex where
  "img_re = Regex True False
     (lits ''<img'' @ [GOpen, Rep (CNotIn ''>'') 1 True, GClose, NotBehind CHR ''/'',
                       Rep CSpace 0 True, Lit CHR ''>''])"

definition closing_tag_re :: "string \<Rightarrow> regex" where
  "closing_tag_re name = Regex True False (lits (''</'' @ name @ ''>''))"

definition xhtml_cleanup :: "string \<Rightarrow> string" where
  "xhtml_cleanup =
     replace_all (closing_tag_re ''br'') '''' \<circ>
     replace_all (closing_tag_re ''hr'') '''' \<circ>
     replace_all img_re ''<img$1/>'' \<circ>
     replace_all (slash_tag_re ''br'') ''<br/>'' \<circ>
     replace_all (open_tag_re ''br'') ''<br/>'' \<circ>
     replace_all (slash_tag_re ''hr'') ''<hr/>'' \<circ>
     replace_all (open_tag_re ''hr'') ''<hr/>''"

definition mermaidPlaceholderRegex :: regex where
  "mermaidPlaceholderRegex = Regex False False
     (lits ''<!--MERMAID_BLOCK_PLACEHOLDER_START-->'' @ [GOpen, Rep CAny 0 False, GClose] @
      lits ''<!--MERMAID_BLOCK_PLACEHOLDER_END-->'')"

record conversion =
  html :: string
  mermaidData :: "mermaid_item list option"

text \<open>
  The converter object: \<open>enableMermaid\<close>; its \<open>mermaidRenderer\<close> is set exactly when
  \<open>enableMermaid\<close> is (the constructor), so \<open>getMermaidRenderer()\<close> is not \<open>null\<close> exactly then.
\<close>

record converter =
  enableMermaid :: bool

definition getMermaidRenderer :: "converter \<Rightarrow> bool" where
  "getMermaidRenderer conv = enableMermaid conv"

text \<open>What \<open>convert\<close> makes of the text that the parser returned.\<close>

definition page_html :: "string \<Rightarrow> string" where
  "page_html parsed =
     xhtml_cleanup (trim (replace_all_fn mermaidPlaceholderRegex
       (\<lambda>m caps. ''<pre><code>mermaid'' @ [CHR 0x0A] @ caps ! 0 @ ''</code></pre>'') parsed))"

text \<open>
  The body of the \<open>try\<close> block of \<open>convert\<close>. Two of its calls can throw:
  \<open>processMermaidBlocks\<close>, through \<open>renderToSvg\<close>, and \<open>marked.parse\<close>.
\<close>

definition convert_steps ::
  "'w env \<Rightarrow> converter \<Rightarrow> string \<Rightarrow> 'w sys \<Rightarrow> (js_error + conversion) \<times> 'w sys" where
  "convert_steps env conv markdown s =
     (case (if enableMermaid conv \<and> getMermaidRenderer conv
            then (case processMermaidBlocks env markdown s of
                    (Inl e, s1) \<Rightarrow> (Inl e, s1)
                  | (Inr (processed, items), s1) \<Rightarrow> (Inr (processed, Some items), s1))
            else (Inr (markdown, None), s)) of
        (Inl e, s1) \<Rightarrow> (Inl e, s1)
      | (Inr (processedMarkdown, data), s1) \<Rightarrow>
          (case marked_parse env processedMarkdown of
             Inl e \<Rightarrow> (Inl e, s1)
           | Inr parsed \<Rightarrow> (Inr \<lparr>html = page_html parsed, mermaidData = data\<rparr>, s1)))"

text \<open>The handler of \<open>convert\<close>: whatever was thrown, it returns the fall-back.\<close>

definition convert_fallback :: "string \<Rightarrow> conversion" where
  "convert_fallback markdown =
     \<lparr>html = ''<p>'' @ replace_all newline_re ''<br />'' markdown @ ''</p>'', mermaidData = None\<rparr>"

definition simple_convert ::
  "'w env \<Rightarrow> converter \<Rightarrow> string \<Rightarrow> 'w sys \<Rightarrow> (js_error + conversion) \<times> 'w sys" where
  "simple_convert env conv markdown s =
     (case convert_steps env conv markdown s of
        (Inr r, s1) \<Rightarrow> (Inr r, s1)
      | (Inl error, s1) \<Rightarrow> (Inr (convert_fallback markdown), s1))"

section \<open>main.ts: the upload action\<close>

definition attachment_name :: "nat \<Rightarrow> string" where
  "attachment_name i = ''mermaid-'' @ show_nat i @ ''.svg''"

text \<open>
  The loop over \<open>mermaidData\<close> in \<open>performUpload\<close>: an item with an SVG is uploaded, and the
  placeholder is replaced by the reference to the attachment; when the upload throws, or
  the item has no SVG, the placeholder is replaced by the code block. The replacement is
  \<open>finalHtml.replace(placeholder, markup)\<close> with two strings.
\<close>

fun resolve_diagrams :: "'w env \<Rightarrow> string \<Rightarrow> mermaid_item list \<Rightarrow> string \<Rightarrow> 'w sys \<Rightarrow> string \<times> 'w sys" where
  "resolve_diagrams env pageId [] finalHtml s = (finalHtml, s)"
| "resolve_diagrams env pageId (item # items) finalHtml s =
     (case truthy (svg item) of
        Some v \<Rightarrow>
          (case uploadAttachment env pageId (attachment_name (index item)) v s of
             (Inr _, s1) \<Rightarrow>
               resolve_diagrams env pageId items
                 (str_replace finalHtml (mermaid_placeholder (index item))
                    (generateConfluenceMarkup (Some (attachment_name (index item))) (code item))) s1
           | (Inl attachError, s1) \<Rightarrow>
               resolve_diagrams env pageId items
                 (str_replace finalHtml (mermaid_placeholder (index item))
                    (generateConfluenceMarkup None (code item))) s1)
      | None \<Rightarrow>
          resolve_diagrams env pageId items
            (str_replace finalHtml (mermaid_placeholder (index item))
               (generateConfluenceMarkup None (code item))) s)"

text \<open>
  What follows the last \<open>updatePage\<close>: the page id is remembered, the settings are saved and
  the address of the page is copied to the clipboard; what these throw reaches the handler
  of \<open>performUpload\<close>.
\<close>

definition after_upload :: "'w env \<Rightarrow> settings \<Rightarrow> string \<Rightarrow> 'w sys \<Rightarrow> (js_error + unit) \<times> 'w sys" where
  "after_upload env st pageId s =
     (case saveData env (world s) of
        (Inl e, w1) \<Rightarrow> (Inl e, s\<lparr>world := w1, lastPageId := pageId\<rparr>)
      | (Inr _, w1) \<Rightarrow>
          (case clipboard_writeText env (getPageUrl st pageId) w1 of
             (Inl e, w2) \<Rightarrow> (Inl e, s\<lparr>world := w2, lastPageId := pageId\<rparr>)
           | (Inr _, w2) \<Rightarrow> (Inr (), s\<lparr>world := w2, lastPageId := pageId\<rparr>)))"

definition has_diagrams :: "mermaid_item list option \<Rightarrow> bool" where
  "has_diagrams data = (case data of Some items \<Rightarrow> 0 < length items | None \<Rightarrow> False)"

text \<open>The body of the \<open>try\<close> block of \<open>performUpload\<close>.\<close>

definition perform_upload_steps ::
  "'w env \<Rightarrow> settings \<Rightarrow> converter \<Rightarrow> string \<Rightarrow> string \<Rightarrow> 'w sys \<Rightarrow> (js_error + unit) \<times> 'w sys" where
  "perform_upload_steps env st conv pageId markdownContent s =
     (case simple_convert env conv markdownContent s of
        (Inl e, s1) \<Rightarrow> (Inl e, s1)
      | (Inr c, s1) \<Rightarrow>
          if has_diagrams (mermaidData c) then
            (case updatePage env st pageId (html c) None s1 of
               (Inl e, s2) \<Rightarrow> (Inl e, s2)
             | (Inr _, s2) \<Rightarrow>
                 if getMermaidRenderer conv then
                   (case resolve_diagrams env pageId (the (mermaidData c)) (html c) s2 of
                      (finalHtml, s3) \<Rightarrow>
                        (case updatePage env st pageId finalHtml None s3 of
                           (Inl e, s4) \<Rightarrow> (Inl e, s4)
                         | (Inr _, s4) \<Rightarrow> after_upload env st pageId s4))
                 else after_upload env st pageId s2)
          else
            (case updatePage env st pageId (html c) None s1 of
               (Inl e, s2) \<Rightarrow> (Inl e, s2)
             | (Inr _, s2) \<Rightarrow> after_upload env st pageId s2))"

text \<open>
  The outcome of the action: the notice of success, or the notice of the failure with the
  text that follows \<open>Upload failed:\<close> in it, which is \<open>error.message || 'Unknown error'\<close>.
  Reading the message of \<open>undefined\<close> or \<open>null\<close> throws, and then \<open>performUpload\<close> itself
  throws.
\<close>

datatype outcome = Uploaded | Failed string

definition upload_handler :: "js_error \<Rightarrow> js_error + outcome" where
  "upload_handler error =
     (case message_of error of
        Inl te \<Rightarrow> Inl te
      | Inr (Some m) \<Rightarrow> Inr (Failed m)
      | Inr None \<Rightarrow> Inr (Failed ''Unknown error''))"

text \<open>The state in which an action starts: nothing logged yet.\<close>

definition start :: "'w \<Rightarrow> 'w sys" where
  "start w = \<lparr>world = w, trace = [], lastPageId = []\<rparr>"

text \<open>One upload action, started in the world \<open>w\<close> with an empty log.\<close>

definition performUpload ::
  "'w env \<Rightarrow> settings \<Rightarrow> converter \<Rightarrow> string \<Rightarrow> string \<Rightarrow> 'w \<Rightarrow> (js_error + outcome) \<times> 'w sys" where
  "performUpload env st conv pageId markdownContent w =
     (case perform_upload_steps env st conv pageId markdownContent (start w) of
        (Inl e, s') \<Rightarrow> (upload_handler e, s')
      | (Inr _, s') \<Rightarrow> (Inr Uploaded, s'))"

section \<open>An example store\<close>

text \<open>
  A remote store for the examples: the world is the version of the page; a \<open>GET\<close> returns
  the version less \<open>lag\<close> (a stale read when \<open>lag\<close> is not 0); a \<open>PUT\<close> that carries the next
  version is accepted, any other is a conflict (409). The parser returns its input, the
  diagram \<open>bad\<close> does not parse, and the upload of \<open>mermaid-1.svg\<close> is refused.
\<close>

definition demo_response :: "int \<Rightarrow> int \<Rightarrow> response" where
  "demo_response st_code v =
     \<lparr>resp_status = st_code, resp_text = [],
      resp_page = Some \<lparr>page_version = v, page_title = ''Title''\<rparr>,
      resp_message = None, resp_first_error = None\<rparr>"

definition demo_env :: "int \<Rightarrow> int env" where
  "demo_env lag =
     \<lparr>requestUrl = (\<lambda>req v.
        case req_body req of
          NoBody \<Rightarrow> (Inr (demo_response 200 (v - lag)), v)
        | UpdateRequest n t c \<Rightarrow>
            if n = v + 1 then (Inr (demo_response 200 n), n) else (Inr (demo_response 409 v), v)),
      marked_parse = (\<lambda>md. Inr md),
      document_defined = True,
      mermaid_parse = (\<lambda>c v. (if c = ''bad'' then Inl (new_Error ''Parse error'') else Inr (), v)),
      mermaid_render = (\<lambda>c v. (Inr (''<svg>'' @ c @ ''</svg>''), v)),
      mermaid_init = (\<lambda>c v. (Inr None, v)),
      btoa = (\<lambda>s. s),
      upload_attachment = (\<lambda>p f c v. (if f = ''mermaid-1.svg'' then Inl (new_Error ''403'') else Inr f, v)),
      saveData = (\<lambda>v. (Inr (), v)),
      clipboard_writeText = (\<lambda>u v. (Inr (), v))\<rparr>"

definition demo_settings :: settings where
  "demo_settings = \<lparr>apiToken = ''token'', baseUrl = ''https://wiki'', useEnvironmentToken = False,
                     authType = bearer, username = []\<rparr>"

text \<open>
  The example store with a \<open>mermaid.render\<close> that throws \<open>undefined\<close>, and with a parser
  that throws; the two converters; and some notes.
\<close>

definition demo_env_undefined :: "int env" where
  "demo_env_undefined = (demo_env 0)\<lparr>mermaid_render := (\<lambda>c v. (Inl Undefined, v))\<rparr>"

definition demo_env_broken :: "int env" where
  "demo_env_broken = (demo_env 0)\<lparr>marked_parse := (\<lambda>md. Inl (new_Error ''parse failed''))\<rparr>"

definition mermaid_on :: converter where
  "mermaid_on = \<lparr>enableMermaid = True\<rparr>"

definition mermaid_off :: converter where
  "mermaid_off = \<lparr>enableMermaid = False\<rparr>"

definition three_diagrams :: string where
  "three_diagrams =
     fence @ ''mermaid'' @ [CHR 0x0A] @ ''A'' @ fence @ [CHR 0x0A] @
     fence @ ''mermaid'' @ [CHR 0x0A] @ ''B'' @ fence @ [CHR 0x0A] @
     fence @ ''mermaid'' @ [CHR 0x0A] @ ''bad'' @ fence"

definition one_diagram :: string where
  "one_diagram = ''x'' @ [CHR 0x0A] @ fence @ ''mermaid'' @ [CHR 0x0A] @ ''A'' @ fence"

text \<open>
  A note with two diagrams; the source of the second holds a formula between \<open>$$\<close>, as
  the diagrams of mermaid write it.
\<close>

definition formula_diagrams :: string where
  "formula_diagrams =
     fence @ ''mermaid'' @ [CHR 0x0A] @ ''A'' @ [CHR 0x0A] @ fence @ [CHR 0x0A] @
     fence @ ''mermaid'' @ [CHR 0x0A] @ ''B[$$x^2$$]'' @ [CHR 0x0A] @ fence"

section \<open>Reading before writing\<close>


definition success :: "response \<Rightarrow> bool" where
  "success resp \<longleftrightarrow> 200 \<le> resp_status resp \<and> resp_status resp < 300"


lemma do_request_trace:
  "do_request env req s = (r, s') \<Longrightarrow> trace s' = trace s @ [Request req r]"
  by (auto simp: do_request_def emit_def split: prod.splits)





lemma rethrow_isl: "isl (Inl (rethrow prefix e) :: js_error + 'a)"
  by simp

lemma getPage_cases:
  assumes "getPage env st pageId s = (r, s')"
  shows "(trace s' = trace s \<and> isl r) \<or>
         (\<exists>hs g. getHeaders env st = Inr hs \<and>
            trace s' = trace s @ [Request (get_request st pageId hs) g] \<and> isl r) \<or>
         (\<exists>hs resp. getHeaders env st = Inr hs \<and>
            trace s' = trace s @ [Request (get_request st pageId hs) (Inr resp)] \<and>
            resp_status resp = 200 \<and> r = Inr (resp_page resp))"
proof (cases "pageId = []")
  case True
  with assms show ?thesis by (auto simp: getPage_def)
next
  case False
  show ?thesis
  proof (cases "getHeaders env st")
    case (Inl e)
    with False assms show ?thesis by (auto simp: getPage_def)
  next
    case (Inr hs)
    let ?req = "get_request st pageId hs"
    obtain g s1 where d: "do_request env ?req s = (g, s1)" by (cases "do_request env ?req s")
    from do_request_trace [OF d] have t: "trace s1 = trace s @ [Request ?req g]" .
    have eq: "getPage env st pageId s =
       (case g of Inl e \<Rightarrow> (Inl (rethrow ''Failed to fetch page: '' e), s1)
        | Inr resp \<Rightarrow>
            if resp_status resp \<noteq> 200 then
              (Inl (new_Error (''Failed to fetch page: '' @ show_int (resp_status resp) @ '' - '' @ resp_text resp)), s1)
            else (Inr (resp_page resp), s1))"
      using False Inr d by (simp add: getPage_def)
    show ?thesis
    proof (cases g)
      case (Inl e)
      with eq assms have "s' = s1" "isl r" by auto
      with t Inr show ?thesis by blast
    next
      case g: (Inr resp)
      show ?thesis
      proof (cases "resp_status resp = 200")
        case True
        with eq assms g have "s' = s1" "r = Inr (resp_page resp)" by auto
        with t g Inr True show ?thesis by blast
      next
        case False
        with eq assms g have "s' = s1" "isl r" by auto
        with t Inr show ?thesis by blast
      qed
    qed
  qed
qed

lemma update_page_steps_cases:
  assumes "update_page_steps env st pageId content title s = (r, s')"
  shows "(isl r \<and> trace s' = trace s) \<or>
         (\<exists>hs g. getHeaders env st = Inr hs \<and> isl r \<and>
            trace s' = trace s @ [Request (get_request st pageId hs) g]) \<or>
         (\<exists>hs resp pg p. getHeaders env st = Inr hs \<and>
            trace s' = trace s @
              [Request (get_request st pageId hs) (Inr resp),
               Request (put_request st pageId hs (js_plus (page_version pg) 1) (title_sent title pg) content) p] \<and>
            resp_status resp = 200 \<and> resp_page resp = Some pg \<and>
            (isl r \<longleftrightarrow> \<not> (\<exists>ans. p = Inr ans \<and> success ans)))"
proof (cases "pageId = []")
  case True
  with assms show ?thesis by (auto simp: update_page_steps_def)
next
  case False
  obtain g s1 where gp: "getPage env st pageId s = (g, s1)" by (cases "getPage env st pageId s")
  note gc = getPage_cases [OF gp]
  show ?thesis
  proof (cases g)
    case (Inl e)
    with assms False gp have r: "isl r" "s' = s1" by (auto simp: update_page_steps_def)
    from gc Inl r show ?thesis by auto
  next
    case g: (Inr po)
    from gc g obtain hs resp where
      hs: "getHeaders env st = Inr hs" and
      t1: "trace s1 = trace s @ [Request (get_request st pageId hs) (Inr resp)]"
      and ok: "resp_status resp = 200" and po: "po = resp_page resp"
      by auto
    show ?thesis
    proof (cases po)
      case None
      with assms False gp g have "isl r" "s' = s1" by (auto simp: update_page_steps_def)
      with t1 hs show ?thesis by auto
    next
      case (Some pg)
      let ?put = "put_request st pageId hs (js_plus (page_version pg) 1) (title_sent title pg) content"
      obtain p s2 where d: "do_request env ?put s1 = (p, s2)" by (cases "do_request env ?put s1")
      from do_request_trace [OF d] t1
      have t2: "trace s2 = trace s @ [Request (get_request st pageId hs) (Inr resp), Request ?put p]"
        by simp
      have eq: "update_page_steps env st pageId content title s =
         (case p of
            Inl e \<Rightarrow> (Inl (rethrow ''Failed to update page: '' (network_error e)), s2)
          | Inr ans \<Rightarrow>
              if resp_status ans < 200 \<or> 300 \<le> resp_status ans
              then (Inl (rethrow ''Failed to update page: '' (new_Error (update_failure ans))), s2)
              else (Inr (), s2\<lparr>lastPageId := pageId\<rparr>))"
        using False gp g Some hs d by (simp add: update_page_steps_def Let_def)
      have "(isl r \<longleftrightarrow> \<not> (\<exists>ans. p = Inr ans \<and> success ans)) \<and> trace s' = trace s2"
      proof (cases p)
        case (Inl e)
        with eq assms show ?thesis by auto
      next
        case p: (Inr ans)
        show ?thesis
        proof (cases "success ans")
          case True
          with eq assms p show ?thesis by (auto simp: success_def)
        next
          case False
          with eq assms p show ?thesis by (auto simp: success_def)
        qed
      qed
      with t2 hs ok po Some show ?thesis by auto
    qed
  qed
qed

lemma updatePage_trace:
  "updatePage env st pageId content title s = (r, s') \<Longrightarrow>
   \<exists>s1. update_page_steps env st pageId content title s = (r, s1) \<and>
        trace s' = trace s1 @ [Publish pageId content (returned r)]"
  by (cases "update_page_steps env st pageId content title s") (auto simp: updatePage_def emit_def)







section \<open>The conversion never throws\<close>

text \<open>
  The diagram blocks that \<open>convert\<close> processes, the text it hands to the parser (each block
  replaced by its placeholder), and the items that the loop of \<open>processMermaidBlocks\<close>
  builds from the sources and the results of the renders.
\<close>

definition blocks :: "converter \<Rightarrow> string \<Rightarrow> (string \<times> string) list" where
  "blocks conv markdown = (if enableMermaid conv then mermaid_matches markdown else [])"

fun placeholder_text :: "(string \<times> string) list \<Rightarrow> nat \<Rightarrow> string \<Rightarrow> string" where
  "placeholder_text [] i processedMarkdown = processedMarkdown"
| "placeholder_text ((c, fullMatch) # matches) i processedMarkdown =
     placeholder_text matches (Suc i) (str_replace processedMarkdown fullMatch (mermaid_placeholder i))"

fun items_from :: "nat \<Rightarrow> (string \<times> string option) list \<Rightarrow> mermaid_item list" where
  "items_from i [] = []"
| "items_from i ((c, r) # xs) = \<lparr>index = i, svg = truthy r, code = c\<rparr> # items_from (Suc i) xs"

text \<open>A text with every newline rewritten to a line break.\<close>

definition br_text :: "string \<Rightarrow> string" where
  "br_text s = concat (map (\<lambda>ch. if ch = CHR 0x0A then ''<br />'' else [ch]) s)"

lemma items_from_index: "map index (items_from i xs) = [i ..< i + length xs]"
  by (induction i xs rule: items_from.induct) (simp_all add: upt_rec)

lemma length_items_from: "length (items_from i xs) = length xs"
  by (induction i xs rule: items_from.induct) simp_all

lemma renderToSvg_trace:
  "renderToSvg env c s = (r, s') \<Longrightarrow>
   trace s' = trace s @ [Render c r] \<and> r = fst (render_steps env c (world s))"
  by (cases "render_steps env c (world s)") (auto simp: renderToSvg_def emit_def)

text \<open>
  The loop of \<open>processMermaidBlocks\<close>: it logs the renders in the order of the blocks; it
  throws what a render throws, and that render is the last; when it returns, every render
  has returned.
\<close>

lemma process_matches_cases:
  assumes "process_matches env ms i pm items0 s = (res, s')"
  shows "\<exists>rs. trace s' = trace s @ map (\<lambda>(c, r). Render c r) (zip (map fst ms) rs) \<and>
              (\<forall>r \<in> set rs. \<exists>c w. r = fst (render_steps env c w)) \<and>
              (case res of
                 Inl e \<Rightarrow> Inl e \<in> set rs
               | Inr (pm', items) \<Rightarrow>
                   length rs = length ms \<and> (\<forall>r \<in> set rs. \<not> isl r) \<and>
                   pm' = placeholder_text ms i pm \<and>
                   items = items0 @ items_from i (zip (map fst ms) (map projr rs)))"
  using assms
proof (induction ms arbitrary: i pm items0 s)
  case Nil
  then have "trace s' = trace s @ map (\<lambda>(c, r). Render c r) (zip (map fst []) []) \<and>
        (\<forall>r \<in> set []. \<exists>c w. r = fst (render_steps env c w)) \<and>
        (case res of
           Inl e \<Rightarrow> Inl e \<in> set []
         | Inr (pm', items) \<Rightarrow>
             length [] = length ([] :: (string \<times> string) list) \<and>
             (\<forall>r \<in> set ([] :: (js_error + string option) list). \<not> isl r) \<and>
             pm' = placeholder_text [] i pm \<and>
             items = items0 @ items_from i (zip (map fst []) (map projr [])))"
    by auto
  then show ?case by (intro exI)
next
  case (Cons m ms)
  obtain c fullMatch where m: "m = (c, fullMatch)" by (cases m)
  obtain r s1 where rd: "renderToSvg env c s = (r, s1)" by (cases "renderToSvg env c s")
  from renderToSvg_trace [OF rd]
  have t1: "trace s1 = trace s @ [Render c r]" and rr: "r = fst (render_steps env c (world s))"
    by simp_all
  show ?case
  proof (cases r)
    case (Inl e)
    with Cons.prems m rd have "res = Inl e" "s' = s1" by simp_all
    moreover have "\<exists>c w. Inl e = fst (render_steps env c w)"
      using rr Inl by metis
    ultimately have "trace s' = trace s @ map (\<lambda>(c, r). Render c r) (zip (map fst (m # ms)) [r]) \<and>
          (\<forall>r' \<in> set [r]. \<exists>c w. r' = fst (render_steps env c w)) \<and>
          (case res of
             Inl e \<Rightarrow> Inl e \<in> set [r]
           | Inr (pm', items) \<Rightarrow>
               length [r] = length (m # ms) \<and> (\<forall>r' \<in> set [r]. \<not> isl r') \<and>
               pm' = placeholder_text (m # ms) i pm \<and>
               items = items0 @ items_from i (zip (map fst (m # ms)) (map projr [r])))"
      using t1 Inl m by auto
    then show ?thesis by (intro exI)
  next
    case (Inr v)
    with Cons.prems m rd
    have "process_matches env ms (Suc i) (str_replace pm fullMatch (mermaid_placeholder i))
            (items0 @ [\<lparr>index = i, svg = truthy v, code = c\<rparr>]) s1 = (res, s')"
      by simp
    from Cons.IH [OF this] obtain rs where
      tr: "trace s' = trace s1 @ map (\<lambda>(c, r). Render c r) (zip (map fst ms) rs)" and
      src: "\<forall>r \<in> set rs. \<exists>c w. r = fst (render_steps env c w)" and
      res: "case res of
              Inl e \<Rightarrow> Inl e \<in> set rs
            | Inr (pm', items) \<Rightarrow>
                length rs = length ms \<and> (\<forall>r \<in> set rs. \<not> isl r) \<and>
                pm' = placeholder_text ms (Suc i) (str_replace pm fullMatch (mermaid_placeholder i)) \<and>
                items = (items0 @ [\<lparr>index = i, svg = truthy v, code = c\<rparr>]) @
                        items_from (Suc i) (zip (map fst ms) (map projr rs))"
      by blast
    have a: "trace s' = trace s @ map (\<lambda>(c, r). Render c r) (zip (map fst (m # ms)) (r # rs))"
      using tr t1 m by simp
    have b: "\<forall>r' \<in> set (r # rs). \<exists>c w. r' = fst (render_steps env c w)"
      using src rr by auto
    have c: "case res of
               Inl e \<Rightarrow> Inl e \<in> set (r # rs)
             | Inr (pm', items) \<Rightarrow>
                 length (r # rs) = length (m # ms) \<and> (\<forall>r' \<in> set (r # rs). \<not> isl r') \<and>
                 pm' = placeholder_text (m # ms) i pm \<and>
                 items = items0 @ items_from i (zip (map fst (m # ms)) (map projr (r # rs)))"
    proof (cases res)
      case (Inl e)
      with res show ?thesis by simp
    next
      case r2: (Inr p)
      obtain pm' items where p: "p = (pm', items)" by (cases p)
      with res r2 Inr m show ?thesis by simp
    qed
    from a b c show ?thesis by (intro exI conjI)
  qed
qed

lemma newline_scan:
  "concat (map (seg_text (\<lambda>m caps pre post. get_substitution m pre post caps ''<br />''))
               (re_scan newline_re pre s 0)) = br_text s"
proof (induction s arbitrary: pre)
  case Nil
  show ?case by (simp add: newline_re_def re_at_def br_text_def)
next
  case (Cons c s)
  show ?case
  proof (cases "c = CHR 0x0A")
    case True
    then have "re_at newline_re pre (c # s) = Some (MState (c # pre) s [c] [] 1)"
      by (simp add: newline_re_def re_at_def char_eq_def)
    with True Cons [of "c # pre"] show ?thesis
      by (simp add: hit_of_def br_text_def)
  next
    case False
    then have "re_at newline_re pre (c # s) = None"
      by (auto simp: newline_re_def re_at_def char_eq_def)
    with False Cons [of "c # pre"] show ?thesis
      by (simp add: br_text_def)
  qed
qed

lemma convert_fallback_text:
  "convert_fallback markdown = \<lparr>html = ''<p>'' @ br_text markdown @ ''</p>'', mermaidData = None\<rparr>"
  by (simp only: convert_fallback_def replace_all_def newline_scan)

text \<open>The conversion in full: what it logs and what it returns.\<close>

lemma simple_convert_cases:
  "\<exists>c s' rs.
     simple_convert env conv markdown s = (Inr c, s') \<and>
     trace s' = trace s @ map (\<lambda>(code, r). Render code r) (zip (map fst (blocks conv markdown)) rs) \<and>
     (\<forall>r \<in> set rs. \<exists>c w. r = fst (render_steps env c w)) \<and>
     (if (\<exists>e. Inl e \<in> set rs) \<or> isl (marked_parse env (placeholder_text (blocks conv markdown) 0 markdown))
      then c = \<lparr>html = ''<p>'' @ br_text markdown @ ''</p>'', mermaidData = None\<rparr>
      else length rs = length (blocks conv markdown) \<and>
           html c = page_html (projr (marked_parse env (placeholder_text (blocks conv markdown) 0 markdown))) \<and>
           mermaidData c =
             (if enableMermaid conv
              then Some (items_from 0 (zip (map fst (blocks conv markdown)) (map projr rs)))
              else None))"
proof (cases "enableMermaid conv")
  case False
  then have b: "blocks conv markdown = []" by (simp add: blocks_def)
  have cs: "convert_steps env conv markdown s =
        (case marked_parse env markdown of
           Inl e \<Rightarrow> (Inl e, s)
         | Inr parsed \<Rightarrow> (Inr \<lparr>html = page_html parsed, mermaidData = None\<rparr>, s))"
    using False by (simp add: convert_steps_def)
  let ?rs = "[] :: (js_error + string option) list"
  show ?thesis
  proof (cases "marked_parse env markdown")
    case (Inl e)
    with cs have "simple_convert env conv markdown s = (Inr (convert_fallback markdown), s)"
      by (simp add: simple_convert_def)
    with Inl b False show ?thesis
      by (intro exI [of _ "convert_fallback markdown"] exI [of _ s] exI [of _ ?rs])
         (simp add: convert_fallback_text)
  next
    case (Inr parsed)
    with cs have "simple_convert env conv markdown s =
        (Inr \<lparr>html = page_html parsed, mermaidData = None\<rparr>, s)"
      by (simp add: simple_convert_def)
    with Inr b False show ?thesis
      by (intro exI [of _ "\<lparr>html = page_html parsed, mermaidData = None\<rparr>"] exI [of _ s] exI [of _ ?rs])
         simp
  qed
next
  case True
  then have b: "blocks conv markdown = mermaid_matches markdown" by (simp add: blocks_def)
  let ?ms = "mermaid_matches markdown"
  obtain res s1 where pm: "process_matches env ?ms 0 markdown [] s = (res, s1)"
    by (cases "process_matches env ?ms 0 markdown [] s")
  from process_matches_cases [OF pm] obtain rs where
    tr: "trace s1 = trace s @ map (\<lambda>(c, r). Render c r) (zip (map fst ?ms) rs)" and
    src: "\<forall>r \<in> set rs. \<exists>c w. r = fst (render_steps env c w)" and
    res: "case res of
            Inl e \<Rightarrow> Inl e \<in> set rs
          | Inr (pm', items) \<Rightarrow>
              length rs = length ?ms \<and> (\<forall>r \<in> set rs. \<not> isl r) \<and>
              pm' = placeholder_text ?ms 0 markdown \<and>
              items = [] @ items_from 0 (zip (map fst ?ms) (map projr rs))"
    by blast
  show ?thesis
  proof (cases res)
    case (Inl e)
    with pm True have "convert_steps env conv markdown s = (Inl e, s1)"
      by (simp add: convert_steps_def processMermaidBlocks_def getMermaidRenderer_def)
    then have sc: "simple_convert env conv markdown s = (Inr (convert_fallback markdown), s1)"
      by (simp add: simple_convert_def)
    from res Inl have "\<exists>e. Inl e \<in> set rs" by auto
    with sc tr src b show ?thesis
      by (intro exI [of _ "convert_fallback markdown"] exI [of _ s1] exI [of _ rs])
         (simp add: convert_fallback_text)
  next
    case (Inr p)
    obtain pm' items where p: "p = (pm', items)" by (cases p)
    with res Inr have
      len: "length rs = length ?ms" and ok: "\<forall>r \<in> set rs. \<not> isl r" and
      pm': "pm' = placeholder_text ?ms 0 markdown" and
      items: "items = items_from 0 (zip (map fst ?ms) (map projr rs))"
      by simp_all
    from ok have no: "\<not> (\<exists>e. Inl e \<in> set rs)" by force
    have cs: "convert_steps env conv markdown s =
        (case marked_parse env (placeholder_text ?ms 0 markdown) of
           Inl e \<Rightarrow> (Inl e, s1)
         | Inr parsed \<Rightarrow> (Inr \<lparr>html = page_html parsed, mermaidData = Some items\<rparr>, s1))"
      using pm True Inr p pm'
      by (simp add: convert_steps_def processMermaidBlocks_def getMermaidRenderer_def)
    show ?thesis
    proof (cases "marked_parse env (placeholder_text ?ms 0 markdown)")
      case (Inl e)
      with cs have "simple_convert env conv markdown s = (Inr (convert_fallback markdown), s1)"
        by (simp add: simple_convert_def)
      with Inl tr src b show ?thesis
        by (intro exI [of _ "convert_fallback markdown"] exI [of _ s1] exI [of _ rs])
           (simp add: convert_fallback_text)
    next
      case parsed: (Inr parsed)
      with cs have "simple_convert env conv markdown s =
          (Inr \<lparr>html = page_html parsed, mermaidData = Some items\<rparr>, s1)"
        by (simp add: simple_convert_def)
      with parsed tr src b no len items True show ?thesis
        by (intro exI [of _ "\<lparr>html = page_html parsed, mermaidData = Some items\<rparr>"]
              exI [of _ s1] exI [of _ rs]) simp
    qed
  qed
qed

text \<open>
  Claim C10. \<open>convert\<close> returns a result in every case, whatever the collaborators do. It
  logs the renders of the diagram blocks in order. When a render has thrown, or the parser
  throws on the text with the placeholders, the result is the input wrapped in a
  paragraph element, with each newline rewritten to \<open><br />\<close>, and a \<open>null\<close> diagram list;
  otherwise every block was rendered and the result is the page made of what the parser
  returned, with the list of the diagrams.
\<close>

theorem convert_never_throws:
  "\<exists>c s' rs.
     simple_convert env conv markdown s = (Inr c, s') \<and>
     trace s' = trace s @ map (\<lambda>(code, r). Render code r) (zip (map fst (blocks conv markdown)) rs) \<and>
     (if (\<exists>e. Inl e \<in> set rs) \<or> isl (marked_parse env (placeholder_text (blocks conv markdown) 0 markdown))
      then c = \<lparr>html = ''<p>'' @ br_text markdown @ ''</p>'', mermaidData = None\<rparr>
      else length rs = length (blocks conv markdown) \<and>
           html c = page_html (projr (marked_parse env (placeholder_text (blocks conv markdown) 0 markdown))) \<and>
           mermaidData c =
             (if enableMermaid conv
              then Some (items_from 0 (zip (map fst (blocks conv markdown)) (map projr rs)))
              else None))"
  using simple_convert_cases [of env conv markdown s] by blast

theorem convert_never_throws_witness:
  "simple_convert demo_env_undefined mermaid_on three_diagrams (start 7) =
     (Inr \<lparr>html = ''<p>'' @ fence @ ''mermaid<br />A'' @ fence @ ''<br />'' @
                   fence @ ''mermaid<br />B'' @ fence @ ''<br />'' @
                   fence @ ''mermaid<br />bad'' @ fence @ ''</p>'',
           mermaidData = None\<rparr>,
      \<lparr>world = 7, trace = [Render ''A'' (Inl (type_error ''undefined'' ''message''))], lastPageId = []\<rparr>) \<and>
   simple_convert demo_env_broken mermaid_on one_diagram (start 7) =
     (Inr \<lparr>html = ''<p>x<br />'' @ fence @ ''mermaid<br />A'' @ fence @ ''</p>'', mermaidData = None\<rparr>,
      \<lparr>world = 7, trace = [Render ''A'' (Inr (Some ''<svg>A</svg>''))], lastPageId = []\<rparr>) \<and>
   simple_convert (demo_env 0) mermaid_on one_diagram (start 7) =
     (Inr \<lparr>html = ''x'' @ [CHR 0x0A] @ ''<!--MERMAID_PLACEHOLDER_0-->'',
           mermaidData = Some [\<lparr>index = 0, svg = Some ''<svg>A</svg>'', code = ''A''\<rparr>]\<rparr>,
      \<lparr>world = 7, trace = [Render ''A'' (Inr (Some ''<svg>A</svg>''))], lastPageId = []\<rparr>)"
proof -
  have 1: "simple_convert demo_env_undefined mermaid_on three_diagrams (start 7) =
     (Inr \<lparr>html = ''<p>'' @ fence @ ''mermaid<br />A'' @ fence @ ''<br />'' @
                   fence @ ''mermaid<br />B'' @ fence @ ''<br />'' @
                   fence @ ''mermaid<br />bad'' @ fence @ ''</p>'',
           mermaidData = None\<rparr>,
      \<lparr>world = 7, trace = [Render ''A'' (Inl (type_error ''undefined'' ''message''))], lastPageId = []\<rparr>)"
    by code_simp
  have 2: "simple_convert demo_env_broken mermaid_on one_diagram (start 7) =
     (Inr \<lparr>html = ''<p>x<br />'' @ fence @ ''mermaid<br />A'' @ fence @ ''</p>'', mermaidData = None\<rparr>,
      \<lparr>world = 7, trace = [Render ''A'' (Inr (Some ''<svg>A</svg>''))], lastPageId = []\<rparr>)"
    by code_simp
  have 3: "simple_convert (demo_env 0) mermaid_on one_diagram (start 7) =
     (Inr \<lparr>html = ''x'' @ [CHR 0x0A] @ ''<!--MERMAID_PLACEHOLDER_0-->'',
           mermaidData = Some [\<lparr>index = 0, svg = Some ''<svg>A</svg>'', code = ''A''\<rparr>]\<rparr>,
      \<lparr>world = 7, trace = [Render ''A'' (Inr (Some ''<svg>A</svg>''))], lastPageId = []\<rparr>)"
    by code_simp
  from convert_never_throws [of demo_env_undefined mermaid_on three_diagrams "start 7"]
       convert_never_throws [of demo_env_broken mermaid_on one_diagram "start 7"]
       convert_never_throws [of "demo_env 0" mermaid_on one_diagram "start 7"] 1 2 3
  show ?thesis by blast
qed

section \<open>The calls of one upload action\<close>

text \<open>The log without the requests: the renders, the publishes and the uploads, in order.\<close>

fun is_request :: "event \<Rightarrow> bool" where
  "is_request (Request q r) = True"
| "is_request (Render c r) = False"
| "is_request (Publish p c ok) = False"
| "is_request (Upload p f c ok) = False"

definition calls :: "event list \<Rightarrow> event list" where
  "calls es = filter (\<lambda>e. \<not> is_request e) es"

lemma calls_append: "calls (xs @ ys) = calls xs @ calls ys"
  by (simp add: calls_def)

lemma update_page_steps_calls:
  assumes "update_page_steps env st pageId content title s = (r, s1)"
  shows "calls (trace s1) = calls (trace s)"
  using update_page_steps_cases [OF assms] by (auto simp: calls_def)

lemma updatePage_calls:
  assumes "updatePage env st pageId content title s = (r, s')"
  shows "calls (trace s') = calls (trace s) @ [Publish pageId content (returned r)]"
proof -
  from updatePage_trace [OF assms] obtain s1 where
    "update_page_steps env st pageId content title s = (r, s1)"
    "trace s' = trace s1 @ [Publish pageId content (returned r)]" by blast
  with update_page_steps_calls [of env st pageId content title s r s1] show ?thesis
    by (simp add: calls_def)
qed

lemma after_upload_trace: "after_upload env st pageId s = (out, s') \<Longrightarrow> trace s' = trace s"
  by (auto simp: after_upload_def split: prod.splits sum.splits)

lemma calls_renders: "calls (map (\<lambda>(c, r). Render c r) xs) = map (\<lambda>(c, r). Render c r) xs"
  by (induction xs) (auto simp: calls_def)

text \<open>Without diagram blocks the conversion logs nothing and reports no diagrams.\<close>

lemma simple_convert_no_diagrams:
  assumes "mermaid_matches md = []"
  shows "\<exists>c s1. simple_convert env conv md s = (Inr c, s1) \<and> trace s1 = trace s \<and>
                \<not> has_diagrams (mermaidData c)"
proof -
  from assms have b: "blocks conv md = []" by (simp add: blocks_def)
  from simple_convert_cases [of env conv md s] obtain c s' rs where
    sc: "simple_convert env conv md s = (Inr c, s')" and
    tr: "trace s' = trace s @ map (\<lambda>(code, r). Render code r) (zip (map fst (blocks conv md)) rs)" and
    c: "if (\<exists>e. Inl e \<in> set rs) \<or> isl (marked_parse env (placeholder_text (blocks conv md) 0 md))
        then c = \<lparr>html = ''<p>'' @ br_text md @ ''</p>'', mermaidData = None\<rparr>
        else length rs = length (blocks conv md) \<and>
             html c = page_html (projr (marked_parse env (placeholder_text (blocks conv md) 0 md))) \<and>
             mermaidData c =
               (if enableMermaid conv
                then Some (items_from 0 (zip (map fst (blocks conv md)) (map projr rs)))
                else None)"
    by blast
  from tr b have t: "trace s' = trace s" by simp
  from c b have "\<not> has_diagrams (mermaidData c)"
    by (auto simp: has_diagrams_def split: if_splits)
  with sc t show ?thesis by blast
qed

text \<open>
  Claim C3. For a source text in which the pattern of diagram blocks matches nowhere, one
  upload action calls \<open>updatePage\<close> exactly once, whatever the settings and whatever the
  collaborators do; it renders nothing and uploads nothing.
\<close>

theorem no_diagrams_one_publish:
  assumes "mermaid_matches markdownContent = []"
  shows "\<exists>content ok.
           calls (trace (snd (performUpload env st conv pageId markdownContent w))) =
             [Publish pageId content ok]"
proof -
  from simple_convert_no_diagrams [OF assms, of env conv "start w"] obtain c s1 where
    sc: "simple_convert env conv markdownContent (start w) = (Inr c, s1)" and
    t1: "trace s1 = []" and nd: "\<not> has_diagrams (mermaidData c)"
    by (auto simp: start_def)
  obtain r s2 where up: "updatePage env st pageId (html c) None s1 = (r, s2)" by (metis surj_pair)
  from updatePage_calls [OF up] t1
  have t2: "calls (trace s2) = [Publish pageId (html c) (returned r)]" by (simp add: calls_def)
  have "calls (trace (snd (performUpload env st conv pageId markdownContent w))) =
          [Publish pageId (html c) (returned r)]"
  proof (cases r)
    case (Inl e)
    with sc nd up t2 show ?thesis
      by (simp add: performUpload_def perform_upload_steps_def)
  next
    case (Inr u)
    obtain out s3 where au: "after_upload env st pageId s2 = (out, s3)" by (metis surj_pair)
    from after_upload_trace [OF au] Inr sc nd up t2 au show ?thesis
      by (cases out) (simp_all add: performUpload_def perform_upload_steps_def)
  qed
  then show ?thesis by blast
qed

theorem no_diagrams_one_publish_witness:
  "mermaid_matches ''# T'' = [] \<and>
   calls (trace (snd (performUpload (demo_env 0) demo_settings mermaid_on ''42'' ''# T'' 7))) =
     [Publish ''42'' ''# T'' True]"
proof -
  have 1: "mermaid_matches ''# T'' = []" by code_simp
  have 2: "calls (trace (snd (performUpload (demo_env 0) demo_settings mermaid_on ''42'' ''# T'' 7))) =
     [Publish ''42'' ''# T'' True]" by code_simp
  from no_diagrams_one_publish [OF 1, of "demo_env 0" demo_settings mermaid_on "''42''" 7] 1 2
  show ?thesis by simp
qed

text \<open>\<open>undefined\<close> and \<open>null\<close>: the values whose properties cannot be read.\<close>

definition nullish :: "js_error \<Rightarrow> bool" where
  "nullish e = (case e of Undefined \<Rightarrow> True | Null \<Rightarrow> True | _ \<Rightarrow> False)"

lemma render_handler_returns: "\<not> nullish e \<Longrightarrow> render_handler e = Inr None"
  by (cases e) (simp_all add: render_handler_def message_of_def nullish_def)

lemma render_steps_returns:
  assumes "\<forall>c w e. fst (mermaid_render env c w) = Inl e \<longrightarrow> \<not> nullish e"
  shows "\<not> isl (fst (render_steps env c w))"
proof (cases "document_defined env")
  case False
  then show ?thesis by (simp add: render_steps_def)
next
  case True
  obtain a w1 where mp: "mermaid_parse env c w = (a, w1)" by (cases "mermaid_parse env c w")
  show ?thesis
  proof (cases a)
    case (Inl e)
    with True mp show ?thesis by (simp add: render_steps_def)
  next
    case a: (Inr u)
    obtain b w2 where mr: "mermaid_render env c w1 = (b, w2)" by (cases "mermaid_render env c w1")
    show ?thesis
    proof (cases b)
      case (Inr v)
      with True mp a mr show ?thesis by (simp add: render_steps_def)
    next
      case b: (Inl e)
      with mr assms have "\<not> nullish e" by (metis fst_conv)
      then have "render_handler e = Inr None" by (rule render_handler_returns)
      with True mp a mr b show ?thesis
        by (simp add: render_steps_def split: prod.splits sum.splits option.splits)
    qed
  qed
qed

text \<open>
  What the loop of \<open>performUpload\<close> does with one item, given whether its upload returned,
  and the uploads it logs.
\<close>

definition resolve_one :: "string \<Rightarrow> mermaid_item \<times> bool \<Rightarrow> string" where
  "resolve_one finalHtml p =
     (case p of (item, uploaded) \<Rightarrow>
        str_replace finalHtml (mermaid_placeholder (index item))
          (generateConfluenceMarkup
             (if uploaded then Some (attachment_name (index item)) else None) (code item)))"

fun upload_events :: "string \<Rightarrow> (mermaid_item \<times> bool) list \<Rightarrow> event list" where
  "upload_events pageId [] = []"
| "upload_events pageId ((item, uploaded) # ps) =
     (case truthy (svg item) of
        Some v \<Rightarrow> Upload pageId (attachment_name (index item)) v uploaded # upload_events pageId ps
      | None \<Rightarrow> upload_events pageId ps)"

lemma uploadAttachment_trace:
  assumes "uploadAttachment env pageId f v s = (r, s')"
  shows "trace s' = trace s @ [Upload pageId f v (returned r)]"
proof (cases "pageId = [] \<or> f = [] \<or> v = []")
  case True
  with assms show ?thesis
    by (auto simp: uploadAttachment_def emit_def returned_def)
next
  case False
  obtain a w' where u: "upload_attachment env pageId f v (world s) = (a, w')"
    by (cases "upload_attachment env pageId f v (world s)")
  with False assms show ?thesis
    by (cases a) (auto simp: uploadAttachment_def emit_def returned_def)
qed

lemma resolve_diagrams_trace:
  assumes "resolve_diagrams env pageId items h s = (final, s')"
  shows "\<exists>oks. list_all2 (\<lambda>item uploaded. uploaded \<longrightarrow> truthy (svg item) \<noteq> None) items oks \<and>
               trace s' = trace s @ upload_events pageId (zip items oks) \<and>
               final = foldl resolve_one h (zip items oks)"
  using assms
proof (induction items arbitrary: h s)
  case Nil
  then show ?case by simp
next
  case (Cons item items)
  show ?case
  proof (cases "truthy (svg item)")
    case None
    with Cons.prems
    have "resolve_diagrams env pageId items (resolve_one h (item, False)) s = (final, s')"
      by (simp add: resolve_one_def)
    from Cons.IH [OF this] obtain oks where
      oks: "list_all2 (\<lambda>item uploaded. uploaded \<longrightarrow> truthy (svg item) \<noteq> None) items oks"
        "trace s' = trace s @ upload_events pageId (zip items oks)"
        "final = foldl resolve_one (resolve_one h (item, False)) (zip items oks)"
      by blast
    with None
    have "list_all2 (\<lambda>item uploaded. uploaded \<longrightarrow> truthy (svg item) \<noteq> None) (item # items) (False # oks) \<and>
          trace s' = trace s @ upload_events pageId (zip (item # items) (False # oks)) \<and>
          final = foldl resolve_one h (zip (item # items) (False # oks))"
      by simp
    then show ?thesis by blast
  next
    case (Some v)
    obtain r s1 where up: "uploadAttachment env pageId (attachment_name (index item)) v s = (r, s1)"
      by (cases "uploadAttachment env pageId (attachment_name (index item)) v s")
    from Cons.prems Some up
    have "resolve_diagrams env pageId items (resolve_one h (item, returned r)) s1 = (final, s')"
      by (cases r) (simp_all add: resolve_one_def returned_def)
    from Cons.IH [OF this] obtain oks where
      oks: "list_all2 (\<lambda>item uploaded. uploaded \<longrightarrow> truthy (svg item) \<noteq> None) items oks"
        "trace s' = trace s1 @ upload_events pageId (zip items oks)"
        "final = foldl resolve_one (resolve_one h (item, returned r)) (zip items oks)"
      by blast
    with Some uploadAttachment_trace [OF up]
    have "list_all2 (\<lambda>item uploaded. uploaded \<longrightarrow> truthy (svg item) \<noteq> None) (item # items) (returned r # oks) \<and>
          trace s' = trace s @ upload_events pageId (zip (item # items) (returned r # oks)) \<and>
          final = foldl resolve_one h (zip (item # items) (returned r # oks))"
      by simp
    then show ?thesis by blast
  qed
qed

text \<open>
  The log and the page of an upload with diagrams, by ordinal: \<open>cs\<close> are the sources of the
  diagrams, \<open>rs\<close> the results of their renders, \<open>oks\<close> says whose upload returned.
\<close>

definition render_log :: "string list \<Rightarrow> string option list \<Rightarrow> event list" where
  "render_log cs rs = map (\<lambda>k. Render (cs ! k) (Inr (rs ! k))) [0 ..< length cs]"

definition upload_log :: "string \<Rightarrow> string option list \<Rightarrow> bool list \<Rightarrow> event list" where
  "upload_log pageId rs oks =
     map (\<lambda>k. Upload pageId (attachment_name k) (the (truthy (rs ! k))) (oks ! k))
         (filter (\<lambda>k. truthy (rs ! k) \<noteq> None) [0 ..< length rs])"

definition resolved :: "string \<Rightarrow> string list \<Rightarrow> bool list \<Rightarrow> string" where
  "resolved finalHtml cs oks =
     foldl (\<lambda>h k. str_replace h (mermaid_placeholder k)
                     (generateConfluenceMarkup
                        (if oks ! k then Some (attachment_name k) else None) (cs ! k)))
           finalHtml [0 ..< length cs]"

lemma upt_0_Suc: "[0 ..< Suc n] = 0 # map Suc [0 ..< n]"
  by (simp add: upt_conv_Cons map_Suc_upt del: upt_Suc)

lemma render_log_zip:
  assumes "length rs = length cs" and "\<forall>r \<in> set rs. \<not> isl r"
  shows "map (\<lambda>(c, r). Render c r) (zip cs rs) = render_log cs (map projr rs)"
proof (rule nth_equalityI)
  show "length (map (\<lambda>(c, r). Render c r) (zip cs rs)) = length (render_log cs (map projr rs))"
    using assms(1) by (simp add: render_log_def)
next
  fix k assume "k < length (map (\<lambda>(c, r). Render c r) (zip cs rs))"
  with assms(1) have k: "k < length rs" "k < length cs" by simp_all
  with assms(2) have "\<not> isl (rs ! k)" by simp
  then have "rs ! k = Inr (projr (rs ! k))" by (cases "rs ! k") simp_all
  with k show "map (\<lambda>(c, r). Render c r) (zip cs rs) ! k = render_log cs (map projr rs) ! k"
    by (simp add: render_log_def)
qed

lemma truthy_idem: "truthy (truthy r) = truthy r"
  by (simp add: truthy_def split: option.splits)

lemma truthy_None: "truthy None = None"
  by (simp add: truthy_def)

lemma truthy_Some: "truthy r = Some v \<Longrightarrow> truthy (Some v) = Some v"
  by (auto simp: truthy_def split: option.splits if_splits)

lemma upload_events_items:
  "length cs = length rs \<Longrightarrow> length oks = length rs \<Longrightarrow>
   upload_events pageId (zip (items_from i (zip cs rs)) oks) =
     map (\<lambda>k. Upload pageId (attachment_name (i + k)) (the (truthy (rs ! k))) (oks ! k))
         (filter (\<lambda>k. truthy (rs ! k) \<noteq> None) [0 ..< length rs])"
proof (induction rs arbitrary: cs oks i)
  case Nil
  then show ?case by simp
next
  case (Cons r rs)
  then obtain c cs' ok oks' where cs: "cs = c # cs'" and oks: "oks = ok # oks'"
    by (metis length_Suc_conv)
  with Cons.prems have len: "length cs' = length rs" "length oks' = length rs" by simp_all
  note ih = Cons.IH [OF len, where i = "Suc i"]
  show ?case
  proof (cases "truthy r")
    case None
    with ih cs oks show ?thesis
      by (simp add: upt_0_Suc filter_map o_def truthy_None del: upt_Suc)
  next
    case (Some v)
    with ih cs oks truthy_Some [OF Some] show ?thesis
      by (simp add: upt_0_Suc filter_map o_def del: upt_Suc)
  qed
qed

lemma resolve_items:
  "length cs = length rs \<Longrightarrow> length oks = length rs \<Longrightarrow>
   foldl resolve_one h (zip (items_from i (zip cs rs)) oks) =
     foldl (\<lambda>h k. str_replace h (mermaid_placeholder (i + k))
                     (generateConfluenceMarkup
                        (if oks ! k then Some (attachment_name (i + k)) else None) (cs ! k)))
           h [0 ..< length rs]"
proof (induction rs arbitrary: cs oks i h)
  case Nil
  then show ?case by simp
next
  case (Cons r rs)
  then obtain c cs' ok oks' where cs: "cs = c # cs'" and oks: "oks = ok # oks'"
    by (metis length_Suc_conv)
  with Cons.prems have len: "length cs' = length rs" "length oks' = length rs" by simp_all
  note ih = Cons.IH [OF len, where i = "Suc i" and
      h = "resolve_one h (\<lparr>index = i, svg = truthy r, code = c\<rparr>, ok)"]
  with cs oks show ?case
    by (simp add: upt_0_Suc foldl_map resolve_one_def del: upt_Suc cong: if_cong)
qed

lemma calls_upload_events: "calls (upload_events pageId ps) = upload_events pageId ps"
  by (induction pageId ps rule: upload_events.induct) (auto simp: calls_def split: option.splits)

text \<open>
  The calls of an upload action for a source with diagram blocks, when diagram processing
  is enabled, no render throws and the parser returns.
\<close>

lemma upload_with_diagrams:
  assumes en: "enableMermaid conv"
    and ne: "mermaid_matches md \<noteq> []"
    and nn: "\<forall>c w e. fst (mermaid_render env c w) = Inl e \<longrightarrow> \<not> nullish e"
    and parse: "marked_parse env (placeholder_text (mermaid_matches md) 0 md) = Inr parsed"
  shows "\<exists>rs oks (r1 :: js_error + unit) (r2 :: js_error + unit).
           length rs = length (mermaid_matches md) \<and> length oks = length (mermaid_matches md) \<and>
           calls (trace (snd (performUpload env st conv pageId md w))) =
             render_log (map fst (mermaid_matches md)) rs @
             [Publish pageId (page_html parsed) (returned r1)] @
             (if returned r1
              then upload_log pageId rs oks @
                   [Publish pageId (resolved (page_html parsed) (map fst (mermaid_matches md)) oks)
                      (returned r2)]
              else [])"
proof -
  let ?ms = "mermaid_matches md"
  let ?cs = "map fst ?ms"
  let ?h = "page_html parsed"
  from en have b: "blocks conv md = ?ms" by (simp add: blocks_def)
  from simple_convert_cases [of env conv md "start w"] obtain c s1 rs0 where
    sc: "simple_convert env conv md (start w) = (Inr c, s1)" and
    t1: "trace s1 = trace (start w) @ map (\<lambda>(code, r). Render code r) (zip (map fst (blocks conv md)) rs0)" and
    src: "\<forall>r \<in> set rs0. \<exists>c w. r = fst (render_steps env c w)" and
    c: "if (\<exists>e. Inl e \<in> set rs0) \<or> isl (marked_parse env (placeholder_text (blocks conv md) 0 md))
        then c = \<lparr>html = ''<p>'' @ br_text md @ ''</p>'', mermaidData = None\<rparr>
        else length rs0 = length (blocks conv md) \<and>
             html c = page_html (projr (marked_parse env (placeholder_text (blocks conv md) 0 md))) \<and>
             mermaidData c =
               (if enableMermaid conv
                then Some (items_from 0 (zip (map fst (blocks conv md)) (map projr rs0)))
                else None)"
    by blast
  have ok: "\<forall>r \<in> set rs0. \<not> isl r"
  proof
    fix r assume "r \<in> set rs0"
    with src obtain c' w' where "r = fst (render_steps env c' w')" by blast
    with render_steps_returns [OF nn, where c = c' and w = w'] show "\<not> isl r" by simp
  qed
  then have no: "\<not> (\<exists>e. Inl e \<in> set rs0)" by force
  let ?rs = "map projr rs0"
  let ?items = "items_from 0 (zip ?cs ?rs)"
  from c no parse b en have
    len0: "length rs0 = length ?ms" and hc: "html c = ?h" and mc: "mermaidData c = Some ?items"
    by simp_all
  from len0 have rs: "length ?rs = length ?ms" by simp
  from rs ne have hd: "has_diagrams (mermaidData c)"
    by (simp add: mc has_diagrams_def length_items_from)
  from t1 b have "calls (trace s1) = map (\<lambda>(c, r). Render c r) (zip ?cs rs0)"
    by (simp add: start_def calls_renders)
  with render_log_zip [of rs0 ?cs] len0 ok have c1: "calls (trace s1) = render_log ?cs ?rs"
    by simp
  obtain r1 s2 where u1: "updatePage env st pageId ?h None s1 = (r1, s2)" by (metis surj_pair)
  from updatePage_calls [OF u1] c1
  have c2: "calls (trace s2) = render_log ?cs ?rs @ [Publish pageId ?h (returned r1)]" by simp
  show ?thesis
  proof (cases r1)
    case (Inl e)
    with sc hd hc u1 have "snd (performUpload env st conv pageId md w) = s2"
      by (simp add: performUpload_def perform_upload_steps_def)
    with c2 Inl rs
    have A: "length ?rs = length ?ms \<and>
          length (replicate (length ?rs) False) = length ?ms \<and>
          calls (trace (snd (performUpload env st conv pageId md w))) =
             render_log ?cs ?rs @ [Publish pageId ?h (returned r1)] @
             (if returned r1
              then upload_log pageId ?rs (replicate (length ?rs) False) @
                   [Publish pageId (resolved ?h ?cs (replicate (length ?rs) False)) (returned r1)]
              else [])"
      by (simp add: returned_def)
    show ?thesis by (intro exI, rule A)
  next
    case r1: (Inr u)
    obtain final s3 where rd: "resolve_diagrams env pageId ?items ?h s2 = (final, s3)"
      by (metis surj_pair)
    from resolve_diagrams_trace [OF rd] obtain oks where
      all: "list_all2 (\<lambda>item uploaded. uploaded \<longrightarrow> truthy (svg item) \<noteq> None) ?items oks" and
      t3: "trace s3 = trace s2 @ upload_events pageId (zip ?items oks)" and
      fin: "final = foldl resolve_one ?h (zip ?items oks)"
      by blast
    from all rs have lo: "length oks = length ?rs"
      by (simp add: list_all2_lengthD [symmetric] length_items_from)
    from rs have lc: "length ?cs = length ?rs" by simp
    from upload_events_items [OF lc lo, of pageId 0]
    have ue: "upload_events pageId (zip ?items oks) = upload_log pageId ?rs oks"
      by (simp add: upload_log_def)
    from resolve_items [OF lc lo, of ?h 0] fin lc
    have fin': "final = resolved ?h ?cs oks"
      by (simp add: resolved_def cong: if_cong)
    from t3 c2 ue
    have c3: "calls (trace s3) = render_log ?cs ?rs @ [Publish pageId ?h (returned r1)] @ upload_log pageId ?rs oks"
      using calls_upload_events [of pageId "zip ?items oks"] by (simp add: calls_append)
    obtain r2 s4 where u2: "updatePage env st pageId final None s3 = (r2, s4)" by (metis surj_pair)
    from updatePage_calls [OF u2] c3
    have c4: "calls (trace s4) = render_log ?cs ?rs @ [Publish pageId ?h (returned r1)] @
                upload_log pageId ?rs oks @ [Publish pageId final (returned r2)]" by simp
    obtain out s5 where au: "after_upload env st pageId s4 = (out, s5)" by (metis surj_pair)
    from sc hd hc mc u1 r1 en rd u2 au
    have pu: "snd (performUpload env st conv pageId md w) = (case r2 of Inl e \<Rightarrow> s4 | Inr u \<Rightarrow> s5)"
      by (cases out)
         (simp_all add: performUpload_def perform_upload_steps_def getMermaidRenderer_def
            split: sum.splits)
    have tr: "calls (trace (snd (performUpload env st conv pageId md w))) = calls (trace s4)"
      using pu after_upload_trace [OF au] by (simp split: sum.splits)
    from rs lo tr c4 fin' r1
    have B: "length ?rs = length ?ms \<and> length oks = length ?ms \<and>
          calls (trace (snd (performUpload env st conv pageId md w))) =
             render_log ?cs ?rs @ [Publish pageId ?h (returned r1)] @
             (if returned r1
              then upload_log pageId ?rs oks @ [Publish pageId (resolved ?h ?cs oks) (returned r2)]
              else [])"
      by (simp add: returned_def)
    show ?thesis by (intro exI, rule B)
  qed
qed

fun is_publish :: "event \<Rightarrow> bool" where
  "is_publish (Publish p c ok) = True"
| "is_publish (Request q r) = False"
| "is_publish (Render c r) = False"
| "is_publish (Upload p f c ok) = False"

lemma render_log_no_publish: "filter is_publish (render_log cs rs) = []"
  by (simp add: render_log_def filter_map o_def)

lemma upload_log_no_publish: "filter is_publish (upload_log pageId rs oks) = []"
  by (simp add: upload_log_def filter_map o_def)

lemma length_upload_log: "length (upload_log pageId rs oks) \<le> length rs"
  using length_filter_le [of "\<lambda>k. truthy (rs ! k) \<noteq> None" "[0 ..< length rs]"]
  by (simp add: upload_log_def)

text \<open>
  Claim C2 (as amended). With diagram processing enabled, a parser that returns and a
  \<open>mermaid.render\<close> that never throws \<open>undefined\<close> or \<open>null\<close>, an upload action for a source
  text with \<open>N > 0\<close> diagram blocks renders each of the \<open>N\<close> diagrams once, in ascending
  ordinal order, during the conversion; then it publishes; when that publish returns, it
  uploads the diagrams that rendered, in ascending ordinal order (so at most \<open>N\<close> uploads),
  and publishes once more to the same page id; when the first publish throws, nothing
  follows it.
\<close>

theorem diagrams_publish_twice:
  assumes "enableMermaid conv"
    and "mermaid_matches markdownContent \<noteq> []"
    and "\<forall>c w e. fst (mermaid_render env c w) = Inl e \<longrightarrow> \<not> nullish e"
    and "marked_parse env (placeholder_text (mermaid_matches markdownContent) 0 markdownContent) = Inr parsed"
  shows "\<exists>rs oks content final ok1 ok2.
           length rs = length (mermaid_matches markdownContent) \<and>
           calls (trace (snd (performUpload env st conv pageId markdownContent w))) =
             render_log (map fst (mermaid_matches markdownContent)) rs @
             [Publish pageId content ok1] @
             (if ok1 then upload_log pageId rs oks @ [Publish pageId final ok2] else []) \<and>
           filter is_publish (calls (trace (snd (performUpload env st conv pageId markdownContent w)))) =
             (if ok1 then [Publish pageId content True, Publish pageId final ok2]
              else [Publish pageId content False]) \<and>
           length (render_log (map fst (mermaid_matches markdownContent)) rs) =
             length (mermaid_matches markdownContent) \<and>
           length (upload_log pageId rs oks) \<le> length (mermaid_matches markdownContent)"
proof -
  from upload_with_diagrams [OF assms, where st = st and pageId = pageId and w = w] obtain rs oks
    and r1 r2 :: "js_error + unit" where
    rs: "length rs = length (mermaid_matches markdownContent)" and
    c: "calls (trace (snd (performUpload env st conv pageId markdownContent w))) =
             render_log (map fst (mermaid_matches markdownContent)) rs @
             [Publish pageId (page_html parsed) (returned r1)] @
             (if returned r1
              then upload_log pageId rs oks @
                   [Publish pageId (resolved (page_html parsed) (map fst (mermaid_matches markdownContent)) oks)
                      (returned r2)]
              else [])"
    by blast
  let ?final = "resolved (page_html parsed) (map fst (mermaid_matches markdownContent)) oks"
  have "length rs = length (mermaid_matches markdownContent) \<and>
        calls (trace (snd (performUpload env st conv pageId markdownContent w))) =
             render_log (map fst (mermaid_matches markdownContent)) rs @
             [Publish pageId (page_html parsed) (returned r1)] @
             (if returned r1 then upload_log pageId rs oks @ [Publish pageId ?final (returned r2)] else []) \<and>
        filter is_publish (calls (trace (snd (performUpload env st conv pageId markdownContent w)))) =
             (if returned r1 then [Publish pageId (page_html parsed) True, Publish pageId ?final (returned r2)]
              else [Publish pageId (page_html parsed) False]) \<and>
        length (render_log (map fst (mermaid_matches markdownContent)) rs) =
             length (mermaid_matches markdownContent) \<and>
        length (upload_log pageId rs oks) \<le> length (mermaid_matches markdownContent)"
    using rs c length_upload_log [of pageId rs oks]
    by (simp add: render_log_no_publish upload_log_no_publish) (simp add: render_log_def)
  then show ?thesis by (intro exI)
qed

theorem diagrams_publish_twice_witness:
  "enableMermaid mermaid_on \<and> mermaid_matches three_diagrams \<noteq> [] \<and>
   (\<forall>c w. fst (mermaid_render (demo_env 0) c w) = Inr (''<svg>'' @ c @ ''</svg>'')) \<and>
   marked_parse (demo_env 0) (placeholder_text (mermaid_matches three_diagrams) 0 three_diagrams) =
     Inr (placeholder_text (mermaid_matches three_diagrams) 0 three_diagrams) \<and>
   calls (trace (snd (performUpload (demo_env 0) demo_settings mermaid_on ''42'' three_diagrams 7))) =
     [Render ''A'' (Inr (Some ''<svg>A</svg>'')), Render ''B'' (Inr (Some ''<svg>B</svg>'')),
      Render ''bad'' (Inr None),
      Publish ''42'' (placeholder_text (mermaid_matches three_diagrams) 0 three_diagrams) True,
      Upload ''42'' ''mermaid-0.svg'' ''<svg>A</svg>'' True,
      Upload ''42'' ''mermaid-1.svg'' ''<svg>B</svg>'' False,
      Publish ''42'' (resolved (placeholder_text (mermaid_matches three_diagrams) 0 three_diagrams)
                        [''A'', ''B'', ''bad''] [True, False, False]) True]"
proof -
  have 1: "enableMermaid mermaid_on" by (simp add: mermaid_on_def)
  have 2: "mermaid_matches three_diagrams \<noteq> []" by code_simp
  have r: "\<forall>c w. fst (mermaid_render (demo_env 0) c w) = Inr (''<svg>'' @ c @ ''</svg>'')"
    by (simp add: demo_env_def)
  then have 3: "\<forall>c w e. fst (mermaid_render (demo_env 0) c w) = Inl e \<longrightarrow> \<not> nullish e"
    by simp
  have 4: "marked_parse (demo_env 0) (placeholder_text (mermaid_matches three_diagrams) 0 three_diagrams) =
     Inr (placeholder_text (mermaid_matches three_diagrams) 0 three_diagrams)"
    by (simp add: demo_env_def)
  have 5: "calls (trace (snd (performUpload (demo_env 0) demo_settings mermaid_on ''42'' three_diagrams 7))) =
     [Render ''A'' (Inr (Some ''<svg>A</svg>'')), Render ''B'' (Inr (Some ''<svg>B</svg>'')),
      Render ''bad'' (Inr None),
      Publish ''42'' (placeholder_text (mermaid_matches three_diagrams) 0 three_diagrams) True,
      Upload ''42'' ''mermaid-0.svg'' ''<svg>A</svg>'' True,
      Upload ''42'' ''mermaid-1.svg'' ''<svg>B</svg>'' False,
      Publish ''42'' (resolved (placeholder_text (mermaid_matches three_diagrams) 0 three_diagrams)
                        [''A'', ''B'', ''bad''] [True, False, False]) True]"
    by code_simp
  from diagrams_publish_twice [OF 1 2 3 4, of demo_settings "''42''" 7] 1 2 r 4 5
  show ?thesis by simp
qed

text \<open>
  The claim C2 as it is written fails when diagram processing is switched off: the
  source has three diagram blocks and the action publishes once. It fails also when
  \<open>mermaid.render\<close> throws \<open>undefined\<close>: the handler of \<open>renderToSvg\<close> throws in its turn, the
  conversion falls back, and the action publishes the fall-back once.
\<close>

theorem diagrams_publish_twice_counterexample:
  "length (mermaid_matches three_diagrams) = 3 \<and>
   calls (trace (snd (performUpload (demo_env 0) demo_settings mermaid_off ''42'' three_diagrams 7))) =
     [Publish ''42'' three_diagrams True] \<and>
   calls (trace (snd (performUpload demo_env_undefined demo_settings mermaid_on ''42'' three_diagrams 7))) =
     [Render ''A'' (Inl (type_error ''undefined'' ''message'')),
      Publish ''42'' (''<p>'' @ br_text three_diagrams @ ''</p>'') True]"
  by code_simp

section \<open>main.ts: the fall-back of a diagram\<close>

text \<open>
  Claim C1. A diagram whose render or upload fails is to be replaced by a code block that
  wraps the source of the diagram, and the final publish is still issued. The code breaks
  the first part: the code block is put in with \<open>finalHtml.replace(placeholder, markup)\<close>,
  which reads \<open>markup\<close> as a replacement pattern, so \<open>$$\<close> in the source of the diagram
  becomes \<open>$\<close>. In the example store the upload of the second diagram is refused; the
  action goes on to the final publish, and the page it publishes holds \<open>B[$x^2$]\<close> where
  the source is \<open>B[$$x^2$$]\<close>.
\<close>

theorem fallback_rewrites_source:
  \<open>map fst (mermaid_matches formula_diagrams) = [''A'', ''B[$$x^2$$]''] \<and>
   calls (trace (snd (performUpload (demo_env 0) demo_settings mermaid_on ''42'' formula_diagrams 7))) =
     [Render ''A'' (Inr (Some ''<svg>A</svg>'')),
      Render ''B[$$x^2$$]'' (Inr (Some ''<svg>B[$$x^2$$]</svg>'')),
      Publish ''42'' (''<!--MERMAID_PLACEHOLDER_0-->'' @ [CHR 0x0A] @ ''<!--MERMAID_PLACEHOLDER_1-->'') True,
      Upload ''42'' ''mermaid-0.svg'' ''<svg>A</svg>'' True,
      Upload ''42'' ''mermaid-1.svg'' ''<svg>B[$$x^2$$]</svg>'' False,
      Publish ''42''
        (''<ac:image ac:height="400"><ri:attachment ri:filename="mermaid-0.svg" /></ac:image>'' @ [CHR 0x0A] @
         ''<ac:structured-macro ac:name="code">'' @ [CHR 0x0A] @
         ''                <ac:parameter ac:name="language">mermaid</ac:parameter>'' @ [CHR 0x0A] @
         ''                <ac:parameter ac:name="title">Mermaid Diagram</ac:parameter>'' @ [CHR 0x0A] @
         ''                <ac:plain-text-body><![CDATA[B[$x^2$]]]></ac:plain-text-body>'' @ [CHR 0x0A] @
         ''            </ac:structured-macro>'') True] \<and>
   fst (performUpload (demo_env 0) demo_settings mermaid_on ''42'' formula_diagrams 7) = Inr Uploaded\<close>
  by code_simp

section \<open>simpleConverter.ts: the final normalization\<close>

text \<open>
  The clean-up at the end of \<open>convert\<close> is a chain of seven global replacements. Each
  one is followed here through a document that is given as a list of pieces: plain
  characters, the tags the replacements look for, and all other tags.
\<close>

subsection \<open>One replacement, piece by piece\<close>













lemma to_upper_idem: "to_upper (to_upper c) = to_upper c"
  by (auto simp: to_upper_def split: option.splits if_splits)






definition same_name :: "string \<Rightarrow> string \<Rightarrow> bool" where
  "same_name a b \<longleftrightarrow> map to_upper a = map to_upper b"


fun diverges :: "string \<Rightarrow> string \<Rightarrow> bool" where
  "diverges [] n = False"
| "diverges (c # cs) [] = False"
| "diverges (c # cs) (x # xs) = (to_upper c \<noteq> to_upper x \<or> diverges cs xs)"




lemma diverges_append_left: "diverges b x \<Longrightarrow> diverges (b @ c) x"
  by (induction b x rule: diverges.induct) auto

lemma diverges_upper: "diverges (map to_upper b) (map to_upper x) = diverges b x"
  by (induction b x rule: diverges.induct) (simp_all add: to_upper_idem)









lemma lit_step:
  "step ci ml (Lit a) k (MState p (c # s) opn caps len) =
     (if char_eq ci a c then k (MState (c # p) s (c # opn) caps (Suc len)) else None)"
  by simp


subsection \<open>The tails of the patterns\<close>












subsection \<open>The pieces of a document\<close>

text \<open>
  \<open>piece_text\<close> is the text of a piece, \<open>piece_ok\<close> says which pieces are
  meant, and \<open>piece_norm\<close> is what the normalization is to make of a piece.
\<close>

datatype piece =
    Plain char
  | Other string
  | Open_tag string string
  | Slash_tag string string string
  | Img_tag string string
  | Closing_tag string

fun piece_text :: "piece \<Rightarrow> string" where
  "piece_text (Plain c) = [c]"
| "piece_text (Other body) = CHR ''<'' # body"
| "piece_text (Open_tag n ws) = CHR ''<'' # n @ ws @ ''>''"
| "piece_text (Slash_tag n ws ws') = CHR ''<'' # n @ ws @ ''/'' @ ws' @ ''>''"
| "piece_text (Img_tag n attrs) = CHR ''<'' # n @ attrs @ ''>''"
| "piece_text (Closing_tag n) = ''</'' @ n @ ''>''"



text \<open>The text of a piece other than a plain character: \<open><\<close> and a body without \<open><\<close>.\<close>

fun body :: "piece \<Rightarrow> string" where
  "body (Plain c) = []"
| "body p = tl (piece_text p)"

lemma same_name_sym: "same_name a b \<Longrightarrow> same_name b a"
  by (simp add: same_name_def)






lemma upper_chars:
  "to_upper (CHR ''h'') = CHR ''H''" "to_upper (CHR ''r'') = CHR ''R''"
  "to_upper (CHR ''b'') = CHR ''B''" "to_upper (CHR ''i'') = CHR ''I''"
  "to_upper (CHR ''m'') = CHR ''M''" "to_upper (CHR ''g'') = CHR ''G''"
  "to_upper (CHR ''/'') = CHR ''/''" "to_upper (CHR ''<'') = CHR ''<''"
  "to_upper (CHR ''>'') = CHR ''>''"
  by (simp_all add: to_upper_def)








subsection \<open>What each replacement does to a piece\<close>













subsection \<open>The seven replacements in a row\<close>



















lemma names_apart: "\<not> (same_name n ''hr'' \<and> same_name n ''br'')"
  by (auto simp: same_name_def upper_chars)








end
